theory Spec2Isabelle
  imports Complex_Main "HOL-Library.Log_Nat"
begin

text \<open>
  A shallow embedding of \<open>server.js\<close>, the Express backend that searches two grocery
  providers, normalizes their results, computes prices per kilogram and answers the routes
  \<open>/search\<close>, \<open>/cheapest\<close> and \<open>/bulk-cheapest-perkg\<close>. Every function of the file is a
  definition of the same name; exceptions are values of a sum type, the cache, the clock
  and the count of network calls are a state passed along, and the network, the
  environment variable and the library \<open>camelcase-keys\<close> are parameters.
\<close>

section \<open>Numbers\<close>

text \<open>
  A JavaScript number is a double: a finite one is modelled by its exact value, a rational,
  beside the three non-finite values. A number of a payload may be any rational; every
  result of an operation is a double. The two zeros are one value: the source could tell
  them apart only by dividing by one, and no division of the source has a divisor that can
  be zero.
\<close>

datatype jsnum = Fin rat | PosInf | NegInf | NaN

fun isFinite :: "jsnum \<Rightarrow> bool" where
  "isFinite (Fin q) = True"
| "isFinite n = False"

text \<open>Truthiness of a number: \<open>0\<close> and \<open>NaN\<close> are falsy.\<close>

fun truthy_num :: "jsnum \<Rightarrow> bool" where
  "truthy_num (Fin q) = (q \<noteq> 0)"
| "truthy_num NaN = False"
| "truthy_num n = True"

fun jneg :: "jsnum \<Rightarrow> jsnum" where
  "jneg (Fin q) = Fin (- q)"
| "jneg PosInf = NegInf"
| "jneg NegInf = PosInf"
| "jneg NaN = NaN"

text \<open>
  The result of an operation is its exact result rounded to the nearest double, to the one
  with an even significand when two are equally near. For a positive rational \<open>a\<close> the
  doubles around it are the multiples of \<open>2 ^ expo a\<close>: the exponent leaves 53 bits to the
  significand and is not less than \<open>- 1074\<close>, that of the subnormal numbers. A result that
  rounds to \<open>2 ^ 1024\<close> or more is an infinity.
\<close>

definition ilog2 :: "rat \<Rightarrow> int" where
  "ilog2 a =
     (let k = bitlen (fst (quotient_of a)) - bitlen (snd (quotient_of a))
      in if power_int 2 k \<le> a then k else k - 1)"

definition roundEven :: "rat \<Rightarrow> int" where
  "roundEven t =
     (let m = \<lfloor>t\<rfloor>; f = t - of_int m
      in if f < 1 / 2 then m
         else if 1 / 2 < f then m + 1
         else if even m then m else m + 1)"

definition expo :: "rat \<Rightarrow> int" where
  "expo a = max (- 1074) (ilog2 a - 52)"

definition signif :: "rat \<Rightarrow> int" where
  "signif a = roundEven (a / power_int 2 (expo a))"

definition overflows :: "rat \<Rightarrow> bool" where
  "overflows a = (971 < expo a \<or> (expo a = 971 \<and> signif a = 2 ^ 53))"

definition fl :: "rat \<Rightarrow> jsnum" where
  "fl q =
     (if q = 0 then Fin 0
      else if overflows \<bar>q\<bar> then (if 0 < q then PosInf else NegInf)
      else Fin (sgn q * (of_int (signif \<bar>q\<bar>) * power_int 2 (expo \<bar>q\<bar>))))"

text \<open>
  The same rounding on a numerator and a denominator, with integer arithmetic only; it is
  the form in which \<open>fl\<close> is evaluated.
\<close>

definition le_pow2 :: "int \<Rightarrow> int \<Rightarrow> int \<Rightarrow> bool" where
  "le_pow2 k n d = (if 0 \<le> k then 2 ^ nat k * d \<le> n else d \<le> n * 2 ^ nat (- k))"

definition ilog2_at :: "int \<Rightarrow> int \<Rightarrow> int \<Rightarrow> int" where
  "ilog2_at n d k = (if le_pow2 k n d then k else k - 1)"

definition roundRem :: "int \<Rightarrow> int \<Rightarrow> int \<Rightarrow> int" where
  "roundRem m r d = (if r < d then m else if d < r then m + 1 else if even m then m else m + 1)"

definition roundDiv :: "int \<Rightarrow> int \<Rightarrow> int" where
  "roundDiv n d = roundRem (n div d) (2 * (n mod d)) d"

definition fl_result :: "int \<Rightarrow> int \<Rightarrow> int \<Rightarrow> jsnum" where
  "fl_result s m e =
     (if 971 < e \<or> (e = 971 \<and> m = 2 ^ 53) then (if 0 < s then PosInf else NegInf)
      else if 0 \<le> e then Fin (of_int (s * m * 2 ^ nat e))
      else Fin (of_int (s * m) / of_int (2 ^ nat (- e))))"

definition fl_at :: "int \<Rightarrow> int \<Rightarrow> int \<Rightarrow> jsnum" where
  "fl_at n d e =
     fl_result (sgn n)
       (if 0 \<le> e then roundDiv \<bar>n\<bar> (d * 2 ^ nat e) else roundDiv (\<bar>n\<bar> * 2 ^ nat (- e)) d) e"

definition fl_frac :: "int \<Rightarrow> int \<Rightarrow> jsnum" where
  "fl_frac n d =
     (if n = 0 then Fin 0
      else fl_at n d (max (- 1074) (ilog2_at \<bar>n\<bar> d (bitlen \<bar>n\<bar> - bitlen d) - 52)))"

text \<open>The operator \<open>*\<close>.\<close>

fun jmul :: "jsnum \<Rightarrow> jsnum \<Rightarrow> jsnum" where
  "jmul NaN b = NaN"
| "jmul a NaN = NaN"
| "jmul (Fin a) (Fin b) = fl (a * b)"
| "jmul (Fin a) PosInf = (if a = 0 then NaN else if 0 < a then PosInf else NegInf)"
| "jmul (Fin a) NegInf = (if a = 0 then NaN else if 0 < a then NegInf else PosInf)"
| "jmul PosInf (Fin b) = (if b = 0 then NaN else if 0 < b then PosInf else NegInf)"
| "jmul NegInf (Fin b) = (if b = 0 then NaN else if 0 < b then NegInf else PosInf)"
| "jmul PosInf PosInf = PosInf"
| "jmul PosInf NegInf = NegInf"
| "jmul NegInf PosInf = NegInf"
| "jmul NegInf NegInf = PosInf"

text \<open>The operator \<open>/\<close>.\<close>

fun jdiv :: "jsnum \<Rightarrow> jsnum \<Rightarrow> jsnum" where
  "jdiv NaN b = NaN"
| "jdiv a NaN = NaN"
| "jdiv (Fin a) (Fin b) =
     (if b = 0 then (if a = 0 then NaN else if 0 < a then PosInf else NegInf)
      else fl (a / b))"
| "jdiv (Fin a) b = Fin 0"
| "jdiv a (Fin b) = (if 0 \<le> b then a else jneg a)"
| "jdiv a b = NaN"

text \<open>The operator \<open><\<close> on numbers: every comparison with \<open>NaN\<close> is false.\<close>

fun jlt :: "jsnum \<Rightarrow> jsnum \<Rightarrow> bool" where
  "jlt NaN b = False"
| "jlt a NaN = False"
| "jlt (Fin a) (Fin b) = (a < b)"
| "jlt a NegInf = False"
| "jlt NegInf b = True"
| "jlt PosInf b = False"
| "jlt a PosInf = True"

text \<open>
  \<open>+x.toFixed(2)\<close>. For a magnitude below \<open>10^21\<close>, \<open>toFixed\<close> takes the integer \<open>n\<close>
  for which \<open>n / 100\<close> is closest to the magnitude of \<open>x\<close>, the larger one of two, and
  prints its digits with the sign of \<open>x\<close> and a decimal point; the unary plus reads the
  string back as the nearest double. From \<open>10^21\<close> on, and for the non-finite values,
  \<open>toFixed\<close> prints the number as \<open>String\<close> does, and the unary plus reads the same
  number back.
\<close>

fun toFixed2 :: "jsnum \<Rightarrow> jsnum" where
  "toFixed2 (Fin x) =
     (if 10 ^ 21 \<le> \<bar>x\<bar> then Fin x
      else fl (sgn x * (of_int \<lfloor>\<bar>x\<bar> * 100 + 1 / 2\<rfloor> / 100)))"
| "toFixed2 n = n"

text \<open>A nullable number used as an operand: \<open>null\<close> converts to \<open>0\<close>.\<close>

fun nullToNum :: "jsnum option \<Rightarrow> jsnum" where
  "nullToNum None = Fin 0"
| "nullToNum (Some n) = n"

section \<open>Strings and character classes\<close>

text \<open>
  A string is a list of code units; the model covers the code units below 256. The classes
  are those of the regular expressions of the source: \<open>\d\<close>, \<open>[\d.]\<close>, \<open>\s\<close> (on this
  range: tab, line feed, vertical tab, form feed, carriage return, space, no-break space)
  and the word characters that decide \<open>\b\<close>.
\<close>

definition isDigit :: "char \<Rightarrow> bool" where
  "isDigit c = (c \<in> set ''0123456789'')"

definition isDigitOrDot :: "char \<Rightarrow> bool" where
  "isDigitOrDot c = (isDigit c \<or> c = CHR ''.'')"

definition isSpace :: "char \<Rightarrow> bool" where
  "isSpace c = (c \<in> {CHR 0x09, CHR 0x0A, CHR 0x0B, CHR 0x0C, CHR 0x0D, CHR '' '', CHR 0xA0})"

definition isWordChar :: "char \<Rightarrow> bool" where
  "isWordChar c =
     (c \<in> set ''abcdefghijklmnopqrstuvwxyzABCDEFGHIJKLMNOPQRSTUVWXYZ0123456789_'')"

text \<open>
  \<open>toLowerCase\<close> on one code unit below 256: the letters \<open>A\<close> to \<open>Z\<close> and the
  capital letters \<open>U+00C0\<close> to \<open>U+00DE\<close> (the multiplication sign \<open>U+00D7\<close> apart) move
  up by 32.
\<close>

definition lowerChar :: "char \<Rightarrow> char" where
  "lowerChar c =
     (let n = (of_char c :: nat)
      in if (65 \<le> n \<and> n \<le> 90) \<or> (192 \<le> n \<and> n \<le> 222 \<and> n \<noteq> 215)
         then char_of (n + 32) else c)"

definition toLowerCase :: "string \<Rightarrow> string" where
  "toLowerCase s = map lowerChar s"

text \<open>The value of a run of decimal digits, and of the digits after a decimal point.\<close>

definition digitVal :: "char \<Rightarrow> nat" where
  "digitVal c = of_char c - 48"

definition decVal :: "string \<Rightarrow> rat" where
  "decVal ds = of_nat (foldl (\<lambda>a c. 10 * a + digitVal c) 0 ds)"

definition fracVal :: "string \<Rightarrow> rat" where
  "fracVal ds = decVal ds / 10 ^ length ds"

text \<open>
  \<open>Number(s)\<close> for a string of digits and dots, the only strings the source converts:
  the whole string has to be a decimal literal (\<open>12\<close>, \<open>12.\<close>, \<open>12.5\<close>, \<open>.5\<close>), otherwise
  the result is \<open>NaN\<close>; the empty string converts to \<open>0\<close>. The value of the literal is
  rounded to the nearest double.
\<close>

definition strToNumber :: "string \<Rightarrow> jsnum" where
  "strToNumber s =
     (let i = takeWhile isDigit s; r = dropWhile isDigit s
      in if s = [] then Fin 0
         else case r of
           [] \<Rightarrow> fl (decVal i)
         | c # f \<Rightarrow>
             if c = CHR ''.'' \<and> list_all isDigit f \<and> (i \<noteq> [] \<or> f \<noteq> [])
             then fl (decVal i + fracVal f) else NaN)"

text \<open>
  \<open>parseFloat(s)\<close> for a string of digits and dots: the longest prefix that is a decimal
  literal is converted, rounded to the nearest double, and the rest ignored; \<open>NaN\<close> when
  no prefix is one.
\<close>

definition parseFloat :: "string \<Rightarrow> jsnum" where
  "parseFloat s =
     (let i = takeWhile isDigit s; r = dropWhile isDigit s
      in case r of
           [] \<Rightarrow> (if i = [] then NaN else fl (decVal i))
         | c # r' \<Rightarrow>
             if c = CHR ''.''
             then (let f = takeWhile isDigit r'
                   in if i = [] \<and> f = [] then NaN else fl (decVal i + fracVal f))
             else (if i = [] then NaN else fl (decVal i)))"

section \<open>Regular expressions\<close>

text \<open>
  The two patterns of \<open>sizeToKg\<close> are kept as syntax trees and run by a backtracking
  matcher in the style of the language definition: a matcher takes the continuation that
  matches the rest of the pattern, and an alternative or a shorter repetition is tried only
  when the continuation has failed. Both patterns carry the flag \<open>i\<close>: their literal
  letters are lower-case ASCII letters, and a character matches one when it is that letter
  in either case.
\<close>

datatype cls = Digit | DigitOrDot | Space | Letter char

fun in_cls :: "cls \<Rightarrow> char \<Rightarrow> bool" where
  "in_cls Digit c = isDigit c"
| "in_cls DigitOrDot c = isDigitOrDot c"
| "in_cls Space c = isSpace c"
| "in_cls (Letter l) c = (lowerChar c = l)"

datatype regex =
    Atom cls
  | Seq regex regex
  | Alt regex regex
  | Star cls
  | Plus cls
  | Group nat regex
  | WordBoundary

text \<open>
  The matcher state: the text before the current position (reversed), the text after it,
  and the captures closed so far.
\<close>

type_synonym captures = "nat \<Rightarrow> string option"
type_synonym mstate = "string \<times> string \<times> captures"

fun star_loop :: "cls \<Rightarrow> (mstate \<Rightarrow> 'a option) \<Rightarrow> string \<Rightarrow> string \<Rightarrow> captures \<Rightarrow> 'a option" where
  "star_loop C k bef [] caps = k (bef, [], caps)"
| "star_loop C k bef (x # xs) caps =
     (if in_cls C x
      then (case star_loop C k (x # bef) xs caps of
              Some r \<Rightarrow> Some r
            | None \<Rightarrow> k (bef, x # xs, caps))
      else k (bef, x # xs, caps))"

definition is_boundary :: "string \<Rightarrow> string \<Rightarrow> bool" where
  "is_boundary bef aft =
     ((bef \<noteq> [] \<and> isWordChar (hd bef)) \<noteq> (aft \<noteq> [] \<and> isWordChar (hd aft)))"

definition close_group :: "nat \<Rightarrow> string \<Rightarrow> mstate \<Rightarrow> mstate" where
  "close_group i bef0 st =
     (case st of (bef, aft, caps) \<Rightarrow>
        (bef, aft, caps(i \<mapsto> rev (take (length bef - length bef0) bef))))"

primrec rmatch :: "regex \<Rightarrow> (mstate \<Rightarrow> 'a option) \<Rightarrow> mstate \<Rightarrow> 'a option" where
  "rmatch (Atom C) k st =
     (case st of
        (bef, [], caps) \<Rightarrow> None
      | (bef, x # xs, caps) \<Rightarrow> if in_cls C x then k (x # bef, xs, caps) else None)"
| "rmatch (Seq a b) k st = rmatch a (rmatch b k) st"
| "rmatch (Alt a b) k st =
     (case rmatch a k st of Some r \<Rightarrow> Some r | None \<Rightarrow> rmatch b k st)"
| "rmatch (Star C) k st = (case st of (bef, aft, caps) \<Rightarrow> star_loop C k bef aft caps)"
| "rmatch (Plus C) k st =
     (case st of
        (bef, [], caps) \<Rightarrow> None
      | (bef, x # xs, caps) \<Rightarrow> if in_cls C x then star_loop C k (x # bef) xs caps else None)"
| "rmatch (Group i r) k st = rmatch r (\<lambda>st'. k (close_group i (fst st) st')) st"
| "rmatch WordBoundary k st =
     (case st of (bef, aft, caps) \<Rightarrow> if is_boundary bef aft then k st else None)"

text \<open>
  \<open>s.match(r)\<close> without the flag \<open>g\<close>: the match at the leftmost position that has one;
  \<open>null\<close> when no position has.
\<close>

fun match_from :: "regex \<Rightarrow> string \<Rightarrow> string \<Rightarrow> captures option" where
  "match_from r bef [] =
     rmatch r (\<lambda>st. Some (snd (snd st))) (bef, [], Map.empty)"
| "match_from r bef (x # xs) =
     (case rmatch r (\<lambda>st. Some (snd (snd st))) (bef, x # xs, Map.empty) of
        Some m \<Rightarrow> Some m
      | None \<Rightarrow> match_from r (x # bef) xs)"

definition match :: "string \<Rightarrow> regex \<Rightarrow> captures option" where
  "match s r = match_from r [] s"

text \<open>\<open>/(\d+)\s*x\s*([\d.]+)\s*(g|kg|ml|l)\b/i\<close> and \<open>/([\d.]+)\s*(g|kg|ml|l)\b/i\<close>.\<close>

definition units_re :: regex where
  "units_re =
     Alt (Atom (Letter CHR ''g''))
       (Alt (Seq (Atom (Letter CHR ''k'')) (Atom (Letter CHR ''g'')))
          (Alt (Seq (Atom (Letter CHR ''m'')) (Atom (Letter CHR ''l'')))
             (Atom (Letter CHR ''l''))))"

definition multi_re :: regex where
  "multi_re =
     Seq (Group 1 (Plus Digit))
       (Seq (Star Space)
          (Seq (Atom (Letter CHR ''x''))
             (Seq (Star Space)
                (Seq (Group 2 (Plus DigitOrDot))
                   (Seq (Star Space)
                      (Seq (Group 3 units_re) WordBoundary))))))"

definition single_re :: regex where
  "single_re =
     Seq (Group 1 (Plus DigitOrDot))
       (Seq (Star Space)
          (Seq (Group 2 units_re) WordBoundary))"

section \<open>The unit parser\<close>

text \<open>\<open>Number(m[i])\<close> for a capture: a group that took no part is \<open>undefined\<close>.\<close>

fun NumberOf :: "string option \<Rightarrow> jsnum" where
  "NumberOf None = NaN"
| "NumberOf (Some s) = strToNumber s"

text \<open>\<open>unitToKg(q, u)\<close>; the unit is a string, or \<open>undefined\<close> and replaced by \<open>''\<close>.\<close>

definition unitToKg :: "jsnum \<Rightarrow> string option \<Rightarrow> jsnum option" where
  "unitToKg q u0 =
     (let u = toLowerCase (case u0 of None \<Rightarrow> [] | Some s \<Rightarrow> s)
      in if u = ''g'' then Some (jdiv q (Fin 1000))
         else if u = ''kg'' then Some q
         else if u = ''ml'' then Some (jdiv q (Fin 1000))
         else if u = ''l'' then Some q
         else None)"

definition sizeToKg :: "string \<Rightarrow> jsnum option" where
  "sizeToKg s =
     (case match s multi_re of
        Some m \<Rightarrow> Some (jmul (NumberOf (m 1)) (nullToNum (unitToKg (NumberOf (m 2)) (m 3))))
      | None \<Rightarrow>
          (case match s single_re of
             Some m \<Rightarrow> unitToKg (NumberOf (m 1)) (m 2)
           | None \<Rightarrow> None))"

section \<open>Values, numeric coercion\<close>

text \<open>
  The values a field of a provider payload can hold. A value that is not primitive (an
  array or a nested object) is always truthy and never a string; the one thing the
  normalizer can still compute from it is \<open>Number(v)\<close>, which the constructor carries.
\<close>

datatype jsval = Undefined | Null | Bool bool | Num jsnum | Str string | Obj jsnum

fun truthy :: "jsval \<Rightarrow> bool" where
  "truthy Undefined = False"
| "truthy Null = False"
| "truthy (Bool b) = b"
| "truthy (Num n) = truthy_num n"
| "truthy (Str s) = (s \<noteq> [])"
| "truthy (Obj n) = True"

text \<open>The operators \<open>||\<close> and \<open>??\<close>.\<close>

definition jor :: "jsval \<Rightarrow> jsval \<Rightarrow> jsval" where
  "jor a b = (if truthy a then a else b)"

definition coalesce :: "jsval \<Rightarrow> jsval \<Rightarrow> jsval" where
  "coalesce a b = (if a = Undefined \<or> a = Null then b else a)"

definition finiteOrNull :: "jsnum \<Rightarrow> jsnum option" where
  "finiteOrNull n = (if isFinite n then Some n else None)"

text \<open>
  \<open>toNumber(v)\<close>: \<open>v == null\<close> holds for \<open>null\<close> and \<open>undefined\<close>; a string loses every
  character outside \<open>[\d.]\<close> and goes through \<open>parseFloat\<close>; anything else goes through
  \<open>Number\<close>.
\<close>

fun toNumber :: "jsval \<Rightarrow> jsnum option" where
  "toNumber Undefined = None"
| "toNumber Null = None"
| "toNumber (Str s) = finiteOrNull (parseFloat (filter isDigitOrDot s))"
| "toNumber (Bool b) = finiteOrNull (Fin (if b then 1 else 0))"
| "toNumber (Num n) = finiteOrNull n"
| "toNumber (Obj n) = finiteOrNull n"

section \<open>The record normalizer\<close>

datatype error = Error string | TypeError string | AxiosError string

fun message :: "error \<Rightarrow> string" where
  "message (Error m) = m"
| "message (TypeError m) = m"
| "message (AxiosError m) = m"

text \<open>An object is a map from property names to values; a missing property reads as \<open>undefined\<close>.\<close>

type_synonym jsobj = "string \<Rightarrow> jsval option"

definition getProp :: "jsobj \<Rightarrow> string \<Rightarrow> jsval" where
  "getProp obj k = (case obj k of None \<Rightarrow> Undefined | Some v \<Rightarrow> v)"

record product =
  product_field :: jsval
  size_field :: jsval
  price :: "jsnum option"
  pricePerKg :: "jsnum option"
  url :: jsval
  id_field :: jsval

text \<open>
  The call \<open>sizeToKg(sizeS)\<close>: \<open>sizeS\<close> is a truthy value or the empty string, and
  \<open>s.match\<close> exists on strings only.
\<close>

fun sizeToKg_call :: "jsval \<Rightarrow> error + jsnum option" where
  "sizeToKg_call (Str s) = Inr (sizeToKg s)"
| "sizeToKg_call Undefined = Inr (sizeToKg [])"
| "sizeToKg_call Null = Inl (TypeError ''Cannot read properties of null (reading match)'')"
| "sizeToKg_call v = Inl (TypeError ''s.match is not a function'')"

fun truthy_opt :: "jsnum option \<Rightarrow> bool" where
  "truthy_opt None = False"
| "truthy_opt (Some n) = truthy_num n"

text \<open>The body of the loop of \<open>callStoreSearch\<close>, after \<open>camelCase(raw, { deep: true })\<close>.\<close>

definition normalize_obj :: "jsobj \<Rightarrow> error + product" where
  "normalize_obj obj =
     (let sizeS = jor (getProp obj ''productSize'')
                    (jor (getProp obj ''packageSize'') (jor (getProp obj ''size'') (Str [])))
      in case sizeToKg_call sizeS of
           Inl e \<Rightarrow> Inl e
         | Inr kg \<Rightarrow>
            (let price = toNumber (coalesce (getProp obj ''currentPrice'')
                            (coalesce (getProp obj ''price'') (getProp obj ''Price'')));
                 link = jor (getProp obj ''productUrl'')
                          (jor (getProp obj ''url'') (jor (getProp obj ''link'') (Str [])));
                 id = jor (getProp obj ''productId'')
                        (jor (getProp obj ''id'') (jor (getProp obj ''sku'') (Str [])))
             in Inr \<lparr> product_field = jor (getProp obj ''productName'')
                                        (jor (getProp obj ''name'') (Str [])),
                      size_field = sizeS,
                      price = price,
                      pricePerKg =
                        (if truthy_opt kg \<and> truthy_opt price
                         then Some (toFixed2 (jdiv (nullToNum price) (nullToNum kg)))
                         else None),
                      url = link,
                      id_field = id \<rparr>))"

text \<open>
  \<open>camelCase\<close> is the library \<open>camelcase-keys\<close>; it renames the keys of the payload and is
  a parameter of the model.
\<close>

definition normalize_raw :: "(jsobj \<Rightarrow> jsobj) \<Rightarrow> jsobj \<Rightarrow> error + product" where
  "normalize_raw camelCase raw = normalize_obj (camelCase raw)"

text \<open>The loop over \<open>r.data.results\<close>: an exception in one iteration leaves the loop.\<close>

fun normalize_all :: "(jsobj \<Rightarrow> jsobj) \<Rightarrow> jsobj list \<Rightarrow> error + product list" where
  "normalize_all camelCase [] = Inr []"
| "normalize_all camelCase (raw # raws) =
     (case normalize_raw camelCase raw of
        Inl e \<Rightarrow> Inl e
      | Inr p \<Rightarrow>
         (case normalize_all camelCase raws of
            Inl e \<Rightarrow> Inl e
          | Inr ps \<Rightarrow> Inr (p # ps)))"

section \<open>The response cache\<close>

record entry =
  until :: nat
  value_field :: "product list"

type_synonym cache = "string \<Rightarrow> entry option"

text \<open>\<open>Date.now()\<close> is the argument \<open>now\<close>, in milliseconds.\<close>

definition putCache :: "string \<Rightarrow> product list \<Rightarrow> nat \<Rightarrow> nat \<Rightarrow> cache \<Rightarrow> cache" where
  "putCache k v ttl now c = c(k \<mapsto> \<lparr> until = now + ttl, value_field = v \<rparr>)"

definition getCache :: "string \<Rightarrow> nat \<Rightarrow> cache \<Rightarrow> product list option \<times> cache" where
  "getCache k now c =
     (case c k of
        None \<Rightarrow> (None, c)
      | Some hit \<Rightarrow>
          if until hit < now then (None, c(k := None))
          else (Some (value_field hit), c))"

section \<open>The provider client\<close>

text \<open>
  A value of \<open>req.query\<close>: missing, a string, or an array or object built by the query
  parser, of which the model keeps the string conversion.
\<close>

datatype qval = QAbsent | QStr string | QObj string

fun truthy_q :: "qval \<Rightarrow> bool" where
  "truthy_q QAbsent = False"
| "truthy_q (QStr s) = (s \<noteq> [])"
| "truthy_q (QObj s) = True"

fun toStr :: "qval \<Rightarrow> string" where
  "toStr QAbsent = ''undefined''"
| "toStr (QStr s) = s"
| "toStr (QObj s) = s"

record api =
  host :: string
  path :: string

text \<open>\<open>getApiInfo(store)\<close>; \<open>toLowerCase\<close> exists on strings only.\<close>

definition getApiInfo :: "qval \<Rightarrow> error + api option" where
  "getApiInfo store =
     (case store of
        QObj x \<Rightarrow> Inl (TypeError ''(store || \"\").toLowerCase is not a function'')
      | _ \<Rightarrow>
         (let s = toLowerCase (case store of QStr t \<Rightarrow> t | _ \<Rightarrow> [])
          in if s = ''coles''
             then Inr (Some \<lparr> host = ''coles-product-price-api.p.rapidapi.com'',
                               path = ''/coles/product-search'' \<rparr>)
             else if s = ''woolworths''
             then Inr (Some \<lparr> host = ''woolworths-products-api.p.rapidapi.com'',
                               path = ''/woolworths/product-search/'' \<rparr>)
             else Inr None))"

text \<open>
  The environment: the variable \<open>RAPIDAPI_KEY\<close>, the library \<open>camelcase-keys\<close> and the
  network. \<open>axios_get n url query page size\<close> is what the \<open>n\<close>-th network call of the
  process meets: the time it takes, and either the message of the error it throws or the
  \<open>results\<close> of the body (\<open>None\<close> when the body has no such field).
\<close>

record env =
  RAPIDAPI_KEY :: "string option"
  camelCase :: "jsobj \<Rightarrow> jsobj"
  axios_get :: "nat \<Rightarrow> string \<Rightarrow> qval \<Rightarrow> nat \<Rightarrow> nat \<Rightarrow> nat \<times> (string + jsobj list option)"

text \<open>The state of the process: the cache, the clock and the number of network calls made.\<close>

record world =
  cache :: cache
  clock :: nat
  calls :: nat

definition ensureKey :: "env \<Rightarrow> error option" where
  "ensureKey e =
     (case RAPIDAPI_KEY e of
        None \<Rightarrow> Some (Error ''RAPIDAPI_KEY missing (set in Render env vars)'')
      | Some k \<Rightarrow>
          if k = [] then Some (Error ''RAPIDAPI_KEY missing (set in Render env vars)'')
          else None)"

function showNat :: "nat \<Rightarrow> string" where
  "showNat n = (if n < 10 then [char_of (48 + n)] else showNat (n div 10) @ [char_of (48 + n mod 10)])"
  by pat_completeness auto
termination
  by (relation "measure id") auto

definition cacheKey :: "qval \<Rightarrow> qval \<Rightarrow> nat \<Rightarrow> nat \<Rightarrow> string" where
  "cacheKey store query page size' =
     ''S:'' @ toStr store @ ''|q:'' @ toStr query @ ''|p:'' @ showNat page @ ''|s:'' @ showNat size'"

text \<open>
  \<open>callStoreSearch\<close> runs in two parts. The first runs when it is called, up to the
  \<open>await\<close>: it settles at once (an exception, or a cached list) or leaves a network call
  under way. The second runs when the response has arrived.
\<close>

datatype pending =
    Settled "error + product list"
  | Awaiting string nat "string + jsobj list option"

definition callStoreSearch_start ::
  "env \<Rightarrow> qval \<Rightarrow> qval \<Rightarrow> nat \<Rightarrow> nat \<Rightarrow> world \<Rightarrow> pending \<times> world" where
  "callStoreSearch_start e store query page size' w =
     (case ensureKey e of
        Some err \<Rightarrow> (Settled (Inl err), w)
      | None \<Rightarrow>
         (case getApiInfo store of
            Inl err \<Rightarrow> (Settled (Inl err), w)
          | Inr None \<Rightarrow> (Settled (Inl (Error ''store must be coles or woolworths'')), w)
          | Inr (Some a) \<Rightarrow>
             (let key = cacheKey store query page size';
                  (cached, c) = getCache key (clock w) (cache w)
              in case cached of
                   Some v \<Rightarrow> (Settled (Inr v), w\<lparr>cache := c\<rparr>)
                 | None \<Rightarrow>
                    (let (d, r) = axios_get e (calls w) (''https://'' @ host a @ path a)
                                    query page size'
                     in (Awaiting key d r, w\<lparr>cache := c, calls := calls w + 1\<rparr>)))))"

text \<open>The time at which the promise settles, for a call made at \<open>t0\<close>.\<close>

fun settle_time :: "nat \<Rightarrow> pending \<Rightarrow> nat" where
  "settle_time t0 (Settled r) = t0"
| "settle_time t0 (Awaiting key d r) = t0 + d"

fun callStoreSearch_finish ::
  "env \<Rightarrow> nat \<Rightarrow> pending \<Rightarrow> world \<Rightarrow> (error + product list) \<times> world" where
  "callStoreSearch_finish e t0 (Settled r) w = (r, w)"
| "callStoreSearch_finish e t0 (Awaiting key d (Inl m)) w = (Inl (AxiosError m), w)"
| "callStoreSearch_finish e t0 (Awaiting key d (Inr results)) w =
     (case normalize_all (camelCase e) (case results of None \<Rightarrow> [] | Some rs \<Rightarrow> rs) of
        Inl err \<Rightarrow> (Inl err, w)
      | Inr out \<Rightarrow> (Inr out, w\<lparr>cache := putCache key out 45000 (t0 + d) (cache w)\<rparr>))"

text \<open>One awaited call: the clock stands at the time the promise settled.\<close>

definition callStoreSearch ::
  "env \<Rightarrow> qval \<Rightarrow> qval \<Rightarrow> nat \<Rightarrow> nat \<Rightarrow> world \<Rightarrow> (error + product list) \<times> world" where
  "callStoreSearch e store query page size' w =
     (let (p, w1) = callStoreSearch_start e store query page size' w;
          (r, w2) = callStoreSearch_finish e (clock w) p w1
      in (r, w2\<lparr>clock := settle_time (clock w) p\<rparr>))"

text \<open>
  \<open>await Promise.all([callStoreSearch('coles', q, 1, 15), callStoreSearch('woolworths', q, 1, 15)])\<close>:
  both calls start at the same time, each finishes when its response arrives, and the state
  returned is the one in which both have finished. The two calls use different cache keys.
  When both fail, the exception is the one of the promise rejected first.
\<close>

definition searchBoth ::
  "env \<Rightarrow> qval \<Rightarrow> world \<Rightarrow> (error + product list \<times> product list) \<times> world" where
  "searchBoth e q w =
     (let t0 = clock w;
          (pa, w1) = callStoreSearch_start e (QStr ''coles'') q 1 15 w;
          (pb, w2) = callStoreSearch_start e (QStr ''woolworths'') q 1 15 w1;
          (ra, w3) = callStoreSearch_finish e t0 pa w2;
          (rb, w4) = callStoreSearch_finish e t0 pb w3;
          w5 = w4\<lparr>clock := max (settle_time t0 pa) (settle_time t0 pb)\<rparr>
      in case ra of
           Inr a \<Rightarrow> (case rb of Inr b \<Rightarrow> (Inr (a, b), w5) | Inl eb \<Rightarrow> (Inl eb, w5))
         | Inl ea \<Rightarrow>
            (case rb of
               Inr b \<Rightarrow> (Inl ea, w5)
             | Inl eb \<Rightarrow>
                 (Inl (if settle_time t0 pb < settle_time t0 pa then eb else ea), w5)))"

section \<open>The routes\<close>

text \<open>
  A response is a status and a JSON body. A winner is sent with the store guessed from
  its link (\<open>None\<close> for \<open>undefined\<close>).
\<close>

type_synonym attributed = "string option \<times> product"

datatype body =
    ErrorBody string
  | SearchBody "product list"
  | CheapestBody qval "attributed option" "attributed option"
  | BulkBody "(string \<times> attributed option) list"

type_synonym response = "nat \<times> body"

text \<open>The \<open>catch\<close> of every route: status 500 and \<open>e.message || 'Server error'\<close>.\<close>

definition serverError :: "error \<Rightarrow> response" where
  "serverError e = (500, ErrorBody (if message e = [] then ''Server error'' else message e))"

text \<open>\<open>GET /search\<close>; \<open>store\<close> takes its default when the parameter is \<open>undefined\<close>.\<close>

definition search_handler :: "env \<Rightarrow> qval \<Rightarrow> qval \<Rightarrow> world \<Rightarrow> response \<times> world" where
  "search_handler e store0 q w =
     (let store = (case store0 of QAbsent \<Rightarrow> QStr ''coles'' | v \<Rightarrow> v)
      in if \<not> truthy_q q then ((400, ErrorBody ''Missing ?q=''), w)
         else (case callStoreSearch e store q 1 15 w of
                 (Inl err, w') \<Rightarrow> (serverError err, w')
               | (Inr list, w') \<Rightarrow> ((200, SearchBody list), w')))"

text \<open>\<open>s.includes(sub)\<close>.\<close>

fun includes_str :: "string \<Rightarrow> string \<Rightarrow> bool" where
  "includes_str [] sub = (sub = [])"
| "includes_str (x # xs) sub = (take (length sub) (x # xs) = sub \<or> includes_str xs sub)"

text \<open>\<open>guessStore(p)\<close> for a record \<open>p\<close>; \<open>toLowerCase\<close> exists on strings only.\<close>

definition guessStore :: "product \<Rightarrow> error + string option" where
  "guessStore p =
     (case jor (url p) (Str []) of
        Str s \<Rightarrow>
          Inr (if includes_str (toLowerCase s) ''woolworths'' then Some ''woolworths''
               else if includes_str (toLowerCase s) ''coles'' then Some ''coles''
               else None)
      | v \<Rightarrow> Inl (TypeError ''(p && p.url || \"\").toLowerCase is not a function''))"

text \<open>\<open>best ? { store: guessStore(best), ...best } : null\<close>.\<close>

fun attribute :: "product option \<Rightarrow> error + attributed option" where
  "attribute None = Inr None"
| "attribute (Some p) =
     (case guessStore p of Inl err \<Rightarrow> Inl err | Inr st \<Rightarrow> Inr (Some (st, p)))"

text \<open>The two reductions of \<open>/cheapest\<close>, as the callbacks of \<open>reduce\<close> from \<open>null\<close>.\<close>

definition orInfinity :: "jsnum option \<Rightarrow> jsnum" where
  "orInfinity v = (case v of None \<Rightarrow> PosInf | Some n \<Rightarrow> n)"

definition stepItem :: "product option \<Rightarrow> product \<Rightarrow> product option" where
  "stepItem best p =
     (case best of
        None \<Rightarrow> Some p
      | Some b \<Rightarrow> if jlt (orInfinity (price p)) (orInfinity (price b)) then Some p else Some b)"

definition stepKg :: "product option \<Rightarrow> product \<Rightarrow> product option" where
  "stepKg best p =
     (case best of
        None \<Rightarrow> Some p
      | Some b \<Rightarrow>
          if jlt (nullToNum (pricePerKg p)) (nullToNum (pricePerKg b)) then Some p else Some b)"

text \<open>The comparison step of \<open>/cheapest\<close>: \<open>all\<close>, \<open>byItem\<close>, \<open>withKg\<close> and \<open>byKg\<close>.\<close>

definition allPriced :: "product list \<Rightarrow> product list \<Rightarrow> product list" where
  "allPriced coles woolworths = filter (\<lambda>p. price p \<noteq> None) (coles @ woolworths)"

definition byItem :: "product list \<Rightarrow> product list \<Rightarrow> product option" where
  "byItem coles woolworths = foldl stepItem None (allPriced coles woolworths)"

definition withKg :: "product list \<Rightarrow> product list \<Rightarrow> product list" where
  "withKg coles woolworths = filter (\<lambda>p. pricePerKg p \<noteq> None) (allPriced coles woolworths)"

definition byKg :: "product list \<Rightarrow> product list \<Rightarrow> product option" where
  "byKg coles woolworths = foldl stepKg None (withKg coles woolworths)"

text \<open>\<open>GET /cheapest\<close>.\<close>

definition cheapest_handler :: "env \<Rightarrow> qval \<Rightarrow> world \<Rightarrow> response \<times> world" where
  "cheapest_handler e q w =
     (if \<not> truthy_q q then ((400, ErrorBody ''Missing ?q=''), w)
      else (case searchBoth e q w of
              (Inl err, w') \<Rightarrow> (serverError err, w')
            | (Inr (coles, woolworths), w') \<Rightarrow>
               (case attribute (byItem coles woolworths) of
                  Inl err \<Rightarrow> (serverError err, w')
                | Inr a \<Rightarrow>
                   (case attribute (byKg coles woolworths) of
                      Inl err \<Rightarrow> (serverError err, w')
                    | Inr b \<Rightarrow> ((200, CheapestBody q a b), w')))))"

text \<open>\<open>s.split(',')\<close> and \<open>s.trim()\<close>.\<close>

fun split :: "char \<Rightarrow> string \<Rightarrow> string list" where
  "split c [] = [[]]"
| "split c (x # xs) =
     (if x = c then [] # split c xs
      else (case split c xs of [] \<Rightarrow> [[x]] | p # ps \<Rightarrow> (x # p) # ps))"

definition trim :: "string \<Rightarrow> string" where
  "trim s = rev (dropWhile isSpace (rev (dropWhile isSpace s)))"

text \<open>
  \<open>(req.query.items || '').split(',').map(s => s.trim()).filter(Boolean)\<close>; \<open>split\<close>
  exists on strings only.
\<close>

definition parseItems :: "qval \<Rightarrow> error + string list" where
  "parseItems items =
     (case items of
        QObj x \<Rightarrow> Inl (TypeError ''(req.query.items || \"\").split is not a function'')
      | QAbsent \<Rightarrow> Inr (filter (\<lambda>s. s \<noteq> []) (map trim (split CHR '','' [])))
      | QStr s \<Rightarrow> Inr (filter (\<lambda>s. s \<noteq> []) (map trim (split CHR '','' s))))"

text \<open>One iteration of the loop of \<open>/bulk-cheapest-perkg\<close>, up to the value pushed.\<close>

definition bestPerKg :: "product list \<Rightarrow> product list \<Rightarrow> product option" where
  "bestPerKg coles woolworths =
     foldl stepKg None
       (filter (\<lambda>p. price p \<noteq> None \<and> pricePerKg p \<noteq> None) (coles @ woolworths))"

definition bulk_item :: "env \<Rightarrow> string \<Rightarrow> world \<Rightarrow> (error + string \<times> attributed option) \<times> world" where
  "bulk_item e name w =
     (case searchBoth e (QStr name) w of
        (Inl err, w') \<Rightarrow> (Inl err, w')
      | (Inr (coles, woolworths), w') \<Rightarrow>
         (case attribute (bestPerKg coles woolworths) of
            Inl err \<Rightarrow> (Inl err, w')
          | Inr a \<Rightarrow> (Inr (name, a), w')))"

text \<open>The loop: an exception in one iteration leaves the loop and reaches the \<open>catch\<close>.\<close>

fun bulk_loop ::
  "env \<Rightarrow> string list \<Rightarrow> world \<Rightarrow> (error + (string \<times> attributed option) list) \<times> world" where
  "bulk_loop e [] w = (Inr [], w)"
| "bulk_loop e (name # names) w =
     (case bulk_item e name w of
        (Inl err, w') \<Rightarrow> (Inl err, w')
      | (Inr item, w') \<Rightarrow>
         (case bulk_loop e names w' of
            (Inl err, w'') \<Rightarrow> (Inl err, w'')
          | (Inr out, w'') \<Rightarrow> (Inr (item # out), w'')))"

text \<open>\<open>GET /bulk-cheapest-perkg\<close>.\<close>

definition bulk_handler :: "env \<Rightarrow> qval \<Rightarrow> world \<Rightarrow> response \<times> world" where
  "bulk_handler e items0 w =
     (case parseItems items0 of
        Inl err \<Rightarrow> (serverError err, w)
      | Inr items \<Rightarrow>
          if items = [] then ((400, ErrorBody ''Provide ?items=Flour,Sugar,...''), w)
          else (case bulk_loop e items w of
                  (Inl err, w') \<Rightarrow> (serverError err, w')
                | (Inr out, w') \<Rightarrow> ((200, BulkBody out), w')))"

section \<open>Reference definitions\<close>

text \<open>
  The unit parser as the specification words it, without a matcher: the multi-pack pattern
  \<open><N> x <amount><unit>\<close> is looked for first, then the single pattern \<open><amount><unit>\<close>,
  each at every position of the text in turn, and at one position a pattern is read off
  from left to right. \<open>N\<close> is the run of digits at the position and the amount the run of
  digits and dots; white space may stand around the \<open>x\<close> and, as in the size \<open>500 mL\<close> of
  the specification, before the unit; the unit is one of \<open>g\<close>, \<open>kg\<close>, \<open>ml\<close>, \<open>l\<close> in
  either case and the word ends with it, so that any other unit gives no match.
\<close>

definition wordEnds :: "string \<Rightarrow> bool" where
  "wordEnds t = (case t of [] \<Rightarrow> True | c # cs \<Rightarrow> \<not> isWordChar c)"

definition unitAt :: "string \<Rightarrow> string option" where
  "unitAt t =
     (case find (\<lambda>u. length u \<le> length t \<and> toLowerCase (take (length u) t) = u
                     \<and> wordEnds (drop (length u) t))
             [''g'', ''kg'', ''ml'', ''l''] of
        None \<Rightarrow> None
      | Some u \<Rightarrow> Some (take (length u) t))"

definition amountUnitAt :: "string \<Rightarrow> (string \<times> string) option" where
  "amountUnitAt t =
     (let amount = takeWhile isDigitOrDot t
      in if amount = [] then None
         else (case unitAt (dropWhile isSpace (dropWhile isDigitOrDot t)) of
                 None \<Rightarrow> None
               | Some u \<Rightarrow> Some (amount, u)))"

definition multiPackAt :: "string \<Rightarrow> (string \<times> string \<times> string) option" where
  "multiPackAt t =
     (let n = takeWhile isDigit t
      in if n = [] then None
         else (case dropWhile isSpace (dropWhile isDigit t) of
                 [] \<Rightarrow> None
               | c # r \<Rightarrow>
                   if c = CHR ''x'' \<or> c = CHR ''X''
                   then (case amountUnitAt (dropWhile isSpace r) of
                           None \<Rightarrow> None
                         | Some (amount, u) \<Rightarrow> Some (n, amount, u))
                   else None))"

fun firstAt :: "(string \<Rightarrow> 'a option) \<Rightarrow> string \<Rightarrow> 'a option" where
  "firstAt f [] = f []"
| "firstAt f (x # xs) = (case f (x # xs) of Some r \<Rightarrow> Some r | None \<Rightarrow> firstAt f xs)"

definition sizeToKg_spec :: "string \<Rightarrow> jsnum option" where
  "sizeToKg_spec s =
     (case firstAt multiPackAt s of
        Some (n, amount, u) \<Rightarrow>
          Some (jmul (strToNumber n) (nullToNum (unitToKg (strToNumber amount) (Some u))))
      | None \<Rightarrow>
          (case firstAt amountUnitAt s of
             Some (amount, u) \<Rightarrow> unitToKg (strToNumber amount) (Some u)
           | None \<Rightarrow> None))"

text \<open>
  The candidate names of a logical attribute, probed in order: the first value that is
  present, the first that is truthy, and the first that is neither missing nor \<open>null\<close>.
\<close>

definition firstPresent :: "jsobj \<Rightarrow> string list \<Rightarrow> jsval option" where
  "firstPresent obj ks = (case filter (\<lambda>k. obj k \<noteq> None) ks of [] \<Rightarrow> None | k # r \<Rightarrow> obj k)"

definition firstTruthy :: "jsobj \<Rightarrow> string list \<Rightarrow> jsval option" where
  "firstTruthy obj ks = find truthy (map (getProp obj) ks)"

definition firstNonNull :: "jsobj \<Rightarrow> string list \<Rightarrow> jsval option" where
  "firstNonNull obj ks = find (\<lambda>v. v \<noteq> Undefined \<and> v \<noteq> Null) (map (getProp obj) ks)"

text \<open>The exact value of a price, for comparing the prices of records.\<close>

definition ratOf :: "jsnum option \<Rightarrow> rat" where
  "ratOf v = (case v of Some (Fin q) \<Rightarrow> q | _ \<Rightarrow> 0)"

text \<open>A record as the normalizer builds it: a price and a price per kilogram are finite.\<close>

definition normalized :: "product \<Rightarrow> bool" where
  "normalized p =
     ((case price p of None \<Rightarrow> True | Some n \<Rightarrow> isFinite n)
      \<and> (case pricePerKg p of None \<Rightarrow> True | Some n \<Rightarrow> isFinite n))"

text \<open>
  The doubles, by their values: a significand of at most 53 bits and an exponent from
  \<open>- 1074\<close> to \<open>971\<close>. A double is nearest to a rational when no double is nearer.
\<close>

definition isDouble :: "rat \<Rightarrow> bool" where
  "isDouble x =
     (\<exists>m e :: int. \<bar>m\<bar> < 2 ^ 53 \<and> - 1074 \<le> e \<and> e \<le> 971 \<and> x = of_int m * power_int 2 e)"

definition nearestDouble :: "rat \<Rightarrow> rat \<Rightarrow> bool" where
  "nearestDouble y q = (isDouble y \<and> (\<forall>d. isDouble d \<longrightarrow> \<bar>y - q\<bar> \<le> \<bar>d - q\<bar>))"


section \<open>Auxiliary definitions\<close>

text \<open>Payloads used as examples, after \<open>camelCase\<close>.\<close>

definition example_ids :: jsobj where
  "example_ids = [''productId'' \<mapsto> Num (Fin 0), ''id'' \<mapsto> Str ''A1'']"

definition example_priced :: jsobj where
  "example_priced = [''price'' \<mapsto> Num (Fin 10), ''size'' \<mapsto> Str ''2kg'']"

definition example_free :: jsobj where
  "example_free = [''price'' \<mapsto> Str ''$0.00'', ''size'' \<mapsto> Str ''1kg'']"

definition example_empty_pack :: jsobj where
  "example_empty_pack = [''price'' \<mapsto> Num (Fin 5), ''size'' \<mapsto> Str ''0g'']"

definition example_rounding :: jsobj where
  "example_rounding = [''price'' \<mapsto> Str ''$2.01'', ''size'' \<mapsto> Str ''400g'']"

text \<open>
  An environment used as example: the key is set, every network call takes 120 ms, and a
  search for \<open>Flour\<close> fails while every other search returns one product.
\<close>

definition example_env :: env where
  "example_env =
     \<lparr> RAPIDAPI_KEY = Some ''secret'',
       camelCase = id,
       axios_get = (\<lambda>n u q p s.
          (120, if q = QStr ''Flour'' then Inl ''Request failed with status code 500''
                else Inr (Some [example_priced]))) \<rparr>"

definition example_world :: world where
  "example_world = \<lparr> cache = Map.empty, clock = 1000, calls = 0 \<rparr>"

text \<open>
  A record is the first minimum of a list under a key when every record before it has a
  larger key and no record after it a smaller one.
\<close>

definition firstMin :: "('a \<Rightarrow> rat) \<Rightarrow> 'a list \<Rightarrow> 'a \<Rightarrow> bool" where
  "firstMin k xs r =
     (\<exists>pre post. xs = pre @ r # post
        \<and> (\<forall>q\<in>set pre. k r < k q) \<and> (\<forall>q\<in>set post. k r \<le> k q))"

text \<open>
  Records used as examples: two of the first provider, two of the second; the last two have
  the same price, and the last one no price per kilogram.
\<close>

definition example_a1 :: product where
  "example_a1 = \<lparr> product_field = Str ''Oreo 200g'', size_field = Str ''200g'',
                   price = Some (Fin 5), pricePerKg = Some (Fin 25),
                   url = Str ''https://www.coles.com.au/product/1'', id_field = Str ''1'' \<rparr>"

definition example_a2 :: product where
  "example_a2 = \<lparr> product_field = Str ''Oreo 500g'', size_field = Str ''500g'',
                   price = Some (Fin 9), pricePerKg = Some (Fin 18),
                   url = Str ''https://www.coles.com.au/product/2'', id_field = Str ''2'' \<rparr>"

definition example_b1 :: product where
  "example_b1 = \<lparr> product_field = Str ''Oreo 150g'', size_field = Str ''150g'',
                   price = Some (Fin (9 / 2)), pricePerKg = Some (Fin 30),
                   url = Str ''https://www.woolworths.com.au/p/3'', id_field = Str ''3'' \<rparr>"

definition example_b2 :: product where
  "example_b2 = \<lparr> product_field = Str ''Oreo twin'', size_field = Str ''twin pack'',
                   price = Some (Fin (9 / 2)), pricePerKg = None,
                   url = Str ''https://www.woolworths.com.au/p/4'', id_field = Str ''4'' \<rparr>"

text \<open>
  The record the example payload normalizes to, and the state of the process after the
  example environment has answered a search for \<open>Sugar\<close> at both providers.
\<close>

definition example_record :: product where
  "example_record =
     \<lparr> product_field = Str [], size_field = Str ''2kg'', price = Some (Fin 10),
       pricePerKg = Some (Fin 5), url = Str [], id_field = Str [] \<rparr>"

definition example_world1 :: world where
  "example_world1 =
     \<lparr> cache = putCache (cacheKey (QStr ''woolworths'') (QStr ''Sugar'') 1 15) [example_record]
                 45000 1120
                 (putCache (cacheKey (QStr ''coles'') (QStr ''Sugar'') 1 15) [example_record]
                    45000 1120 Map.empty),
       clock = 1120, calls = 2 \<rparr>"

section \<open>Rounding to the nearest double\<close>

text \<open>
  The rounding \<open>fl\<close> returns a double, and no double is nearer to its argument: below
  \<open>2 ^ (expo a + 52)\<close> and from there to \<open>2 ^ (expo a + 53)\<close> every double is a multiple of
  \<open>2 ^ expo a\<close> or smaller than all of these, so none lies strictly between the two
  multiples around \<open>a\<close>.
\<close>

lemma of_int_pow2: "1 \<le> k \<Longrightarrow> (of_int (2 ^ nat k) :: rat) = power_int 2 k"
  and of_int_pow2': "1 \<le> k \<Longrightarrow> (of_int (2 ^ nat (k - 1)) :: rat) = power_int 2 (k - 1)"
  by (simp_all add: power_int_def)

lemma bitlen_rat_bounds:
  assumes "0 < (n::int)"
  shows "power_int 2 (bitlen n - 1) \<le> (of_int n :: rat)" and "(of_int n :: rat) < power_int 2 (bitlen n)"
proof -
  from assms have b: "1 \<le> bitlen n" by (auto simp: bitlen_alt_def)
  from bitlen_bounds[OF assms] have l: "2 ^ nat (bitlen n - 1) \<le> n" and u: "n < 2 ^ nat (bitlen n)"
    by simp_all
  from l have "(of_int (2 ^ nat (bitlen n - 1)) :: rat) \<le> of_int n" by (simp only: of_int_le_iff)
  with b show "power_int 2 (bitlen n - 1) \<le> (of_int n :: rat)"
    by (simp only: of_int_pow2')
  from u have "(of_int n :: rat) < of_int (2 ^ nat (bitlen n))" by (simp only: of_int_less_iff)
  with b show "(of_int n :: rat) < power_int 2 (bitlen n)"
    by (simp only: of_int_pow2)
qed

lemma pow2_add: "power_int (2::rat) (a + b) = power_int 2 a * power_int 2 b"
  by (simp add: power_int_add)

lemma pow2_pos: "0 < power_int (2::rat) a"
  by simp

lemma ilog2_bounds:
  assumes "0 < a"
  shows "power_int 2 (ilog2 a) \<le> a" and "a < power_int 2 (ilog2 a + 1)"
proof -
  define n where "n = fst (quotient_of a)"
  define d where "d = snd (quotient_of a)"
  define k where "k = bitlen n - bitlen d"
  have dpos: "0 < d" by (simp add: d_def quotient_of_denom_pos')
  have a: "a = of_int n / of_int d"
    by (rule quotient_of_div) (simp add: n_def d_def)
  with assms dpos have npos: "0 < n" by (simp add: zero_less_divide_iff)
  from dpos have dr: "0 < (of_int d :: rat)" by simp
  from a dr have ad: "a * of_int d = of_int n" by simp
  note bn = bitlen_rat_bounds[OF npos]
  note bd = bitlen_rat_bounds[OF dpos]
  have "a * of_int d < power_int (2::rat) (k + 1) * power_int 2 (bitlen d - 1)"
    using bn(2) ad by (simp add: k_def pow2_add[symmetric])
  also have "\<dots> \<le> power_int 2 (k + 1) * of_int d"
    using bd(1) by (simp add: mult_left_mono)
  finally have up: "a < power_int 2 (k + 1)" using dr by simp
  have "power_int (2::rat) (k - 1) * of_int d < power_int 2 (k - 1) * power_int 2 (bitlen d)"
    using bd(2) by (simp add: mult_strict_left_mono)
  also have "\<dots> \<le> a * of_int d"
    using bn(1) ad by (simp add: k_def pow2_add[symmetric])
  finally have lo: "power_int 2 (k - 1) < a" using dr by simp
  have i: "ilog2 a = (if power_int 2 k \<le> a then k else k - 1)"
    by (simp add: ilog2_def k_def n_def d_def Let_def)
  show "power_int 2 (ilog2 a) \<le> a" using lo by (simp add: i)
  show "a < power_int 2 (ilog2 a + 1)" using up by (simp add: i)
qed

lemma expo_ge: "- 1074 \<le> expo a"
  by (simp add: expo_def)

lemma expo_upper:
  assumes "0 < a"
  shows "a < power_int 2 (expo a + 53)"
proof -
  have "ilog2 a + 1 \<le> expo a + 53" by (simp add: expo_def)
  hence "power_int (2::rat) (ilog2 a + 1) \<le> power_int 2 (expo a + 53)"
    by (intro power_int_increasing) simp_all
  with ilog2_bounds(2)[OF assms] show ?thesis by simp
qed

lemma expo_lower:
  assumes "0 < a" and "- 1074 < expo a"
  shows "power_int 2 (expo a + 52) \<le> a"
proof -
  from assms(2) have "expo a + 52 = ilog2 a" by (simp add: expo_def max_def split: if_splits)
  with ilog2_bounds(1)[OF assms(1)] show ?thesis by simp
qed

lemma roundEven_cases:
  "(roundEven t = \<lfloor>t\<rfloor> \<and> t - of_int \<lfloor>t\<rfloor> \<le> 1 / 2)
   \<or> (roundEven t = \<lfloor>t\<rfloor> + 1 \<and> 1 / 2 \<le> t - of_int \<lfloor>t\<rfloor>)"
  by (auto simp: roundEven_def Let_def)

lemma roundEven_nearest:
  fixes z :: rat
  assumes "z \<le> of_int \<lfloor>t\<rfloor> \<or> of_int \<lfloor>t\<rfloor> + 1 \<le> z"
  shows "\<bar>of_int (roundEven t) - t\<bar> \<le> \<bar>z - t\<bar>"
proof -
  have f: "of_int \<lfloor>t\<rfloor> \<le> t" "t < of_int \<lfloor>t\<rfloor> + 1" by linarith+
  from roundEven_cases[of t] assms f show ?thesis
    by (elim disjE conjE; simp; arith)
qed


lemma double_grid:
  fixes a :: rat
  assumes d: "isDouble d" and e: "- 1074 \<le> e"
      and lo: "- 1074 < e \<longrightarrow> power_int 2 (e + 52) \<le> a"
  shows "d / power_int 2 e \<le> of_int \<lfloor>a / power_int 2 e\<rfloor>
         \<or> of_int \<lfloor>a / power_int 2 e\<rfloor> + 1 \<le> d / power_int 2 e"
proof -
  let ?t = "a / power_int 2 e"
  from d obtain m' e' :: int where m': "\<bar>m'\<bar> < 2 ^ 53" and e': "- 1074 \<le> e'"
    and dv: "d = of_int m' * power_int 2 e'"
    unfolding isDouble_def by blast
  have q: "d / power_int 2 e = of_int m' * power_int 2 (e' - e)"
    by (simp add: dv power_int_diff)
  show ?thesis
  proof (cases "e \<le> e'")
    case True
    hence "power_int (2::rat) (e' - e) = of_int (2 ^ nat (e' - e))"
      by (simp add: power_int_def)
    with q have z: "d / power_int 2 e = of_int (m' * 2 ^ nat (e' - e))" by simp
    have "m' * 2 ^ nat (e' - e) \<le> \<lfloor>?t\<rfloor> \<or> \<lfloor>?t\<rfloor> + 1 \<le> m' * 2 ^ nat (e' - e)" by linarith
    hence "(of_int (m' * 2 ^ nat (e' - e)) :: rat) \<le> of_int \<lfloor>?t\<rfloor>
           \<or> (of_int (\<lfloor>?t\<rfloor> + 1) :: rat) \<le> of_int (m' * 2 ^ nat (e' - e))"
      by (simp only: of_int_le_iff)
    thus ?thesis by (simp only: z of_int_add of_int_1)
  next
    case False
    with e' have "- 1074 < e" by simp
    with lo have "power_int 2 (e + 52) \<le> a" by simp
    hence "power_int 2 (e + 52) / power_int 2 e \<le> ?t"
      by (simp add: divide_right_mono)
    hence "(2::rat) ^ 52 \<le> ?t" by (simp add: pow2_add)
    hence "(of_int (2 ^ 52) :: rat) \<le> ?t" by simp
    hence f: "(2::int) ^ 52 \<le> \<lfloor>?t\<rfloor>" by (simp only: le_floor_iff)
    from False have "e' - e \<le> - 1" by simp
    hence "power_int (2::rat) (e' - e) \<le> power_int 2 (- 1)"
      by (intro power_int_increasing) simp_all
    hence h: "power_int (2::rat) (e' - e) \<le> 1 / 2" by simp
    have "of_int m' * power_int (2::rat) (e' - e) \<le> \<bar>of_int m'\<bar> * power_int 2 (e' - e)"
      by (intro mult_right_mono) simp_all
    also have "\<dots> \<le> \<bar>of_int m'\<bar> * (1 / 2)"
      using h by (intro mult_left_mono) simp_all
    also have "\<dots> \<le> 2 ^ 53 * (1 / 2)"
    proof -
      from m' have "(of_int \<bar>m'\<bar> :: rat) \<le> of_int (2 ^ 53)" by (simp only: of_int_le_iff)
      thus ?thesis by simp
    qed
    finally have "d / power_int 2 e \<le> 2 ^ 52" by (simp add: q)
    also from f have "(2::rat) ^ 52 \<le> of_int \<lfloor>?t\<rfloor>"
      by (metis of_int_le_iff of_int_numeral of_int_power)
    finally show ?thesis by simp
  qed
qed

lemma signif_bounds:
  assumes "0 < a"
  shows "0 \<le> signif a" and "signif a \<le> 2 ^ 53"
proof -
  let ?t = "a / power_int 2 (expo a)"
  from assms have t0: "0 \<le> ?t" by simp
  hence f0: "0 \<le> \<lfloor>?t\<rfloor>" by simp
  from expo_upper[OF assms] have "?t < power_int 2 (expo a + 53) / power_int 2 (expo a)"
    by (simp add: divide_strict_right_mono)
  hence "?t < 2 ^ 53" by (simp add: pow2_add)
  hence "?t < of_int (2 ^ 53)" by simp
  hence f1: "\<lfloor>?t\<rfloor> < 2 ^ 53" by (simp only: floor_less_iff)
  from roundEven_cases[of ?t] f0 show "0 \<le> signif a" by (auto simp: signif_def)
  from roundEven_cases[of ?t] f1 show "signif a \<le> 2 ^ 53" by (auto simp: signif_def)
qed

lemma round_pos_double:
  assumes "0 < a" and "\<not> overflows a"
  shows "isDouble (of_int (signif a) * power_int 2 (expo a))"
proof (cases "signif a = 2 ^ 53")
  case False
  with signif_bounds[OF assms(1)] have "\<bar>signif a\<bar> < 2 ^ 53" by simp
  moreover from assms(2) have "expo a \<le> 971" by (simp add: overflows_def)
  ultimately show ?thesis
    unfolding isDouble_def using expo_ge[of a] by blast
next
  case True
  with assms(2) have e: "expo a + 1 \<le> 971" by (simp add: overflows_def)
  have "of_int (signif a) * power_int (2::rat) (expo a) = of_int (2 ^ 52) * power_int 2 (expo a + 1)"
    by (simp add: True pow2_add)
  moreover have "\<bar>(2::int) ^ 52\<bar> < 2 ^ 53" by simp
  moreover have "- 1074 \<le> expo a + 1" using expo_ge[of a] by simp
  ultimately show ?thesis
    unfolding isDouble_def using e by blast
qed

lemma round_pos_nearest:
  assumes "0 < a" and "isDouble d"
  shows "\<bar>of_int (signif a) * power_int 2 (expo a) - a\<bar> \<le> \<bar>d - a\<bar>"
proof -
  let ?p = "power_int (2::rat) (expo a)"
  have p: "0 < ?p" by simp
  from expo_lower[OF assms(1)] have "- 1074 < expo a \<longrightarrow> power_int 2 (expo a + 52) \<le> a" by simp
  from roundEven_nearest[OF double_grid[OF assms(2) expo_ge this]]
  have "\<bar>of_int (signif a) - a / ?p\<bar> \<le> \<bar>d / ?p - a / ?p\<bar>" by (simp add: signif_def)
  hence "\<bar>of_int (signif a) - a / ?p\<bar> * ?p \<le> \<bar>d / ?p - a / ?p\<bar> * ?p"
    using p by (simp only: mult_le_cancel_right_pos)
  moreover have "\<bar>of_int (signif a) - a / ?p\<bar> * ?p = \<bar>(of_int (signif a) - a / ?p) * ?p\<bar>"
    using p by (simp only: abs_mult_pos less_imp_le)
  moreover have "(of_int (signif a) - a / ?p) * ?p = of_int (signif a) * ?p - a"
    using p by (simp add: left_diff_distrib)
  moreover have "\<bar>d / ?p - a / ?p\<bar> * ?p = \<bar>(d / ?p - a / ?p) * ?p\<bar>"
    using p by (simp only: abs_mult_pos less_imp_le)
  moreover have "(d / ?p - a / ?p) * ?p = d - a"
    using p by (simp add: left_diff_distrib)
  ultimately show ?thesis by simp
qed

lemma isDouble_minus: "isDouble d \<Longrightarrow> isDouble (- d)"
proof -
  assume "isDouble d"
  then obtain m e :: int where "\<bar>m\<bar> < 2 ^ 53" "- 1074 \<le> e" "e \<le> 971" "d = of_int m * power_int 2 e"
    unfolding isDouble_def by blast
  hence "\<bar>- m\<bar> < 2 ^ 53 \<and> - 1074 \<le> e \<and> e \<le> 971 \<and> - d = of_int (- m) * power_int 2 e" by simp
  thus ?thesis unfolding isDouble_def by blast
qed

lemma isDouble_zero: "isDouble 0"
proof -
  have "\<bar>0::int\<bar> < 2 ^ 53 \<and> - 1074 \<le> (0::int) \<and> (0::int) \<le> 971 \<and> (0::rat) = of_int 0 * power_int 2 0"
    by simp
  thus ?thesis unfolding isDouble_def by blast
qed

lemma fl_nearest:
  assumes "fl q = Fin y"
  shows "nearestDouble y q"
proof (cases "q = 0")
  case True
  with assms have "y = 0" by (simp add: fl_def)
  with True isDouble_zero show ?thesis by (simp add: nearestDouble_def)
next
  case False
  let ?a = "\<bar>q\<bar>"
  let ?r = "of_int (signif ?a) * power_int (2::rat) (expo ?a)"
  from False have a: "0 < ?a" by simp
  from assms False have no: "\<not> overflows ?a" and y: "y = sgn q * ?r"
    by (simp_all add: fl_def split: if_splits)
  note dbl = round_pos_double[OF a no]
  show ?thesis
  proof (cases "0 < q")
    case True
    hence yq: "y = ?r" "?a = q" using y by simp_all
    from dbl round_pos_nearest[OF a] show ?thesis
      unfolding nearestDouble_def yq by simp
  next
    case neg: False
    with False have yq: "y = - ?r" "?a = - q" using y by simp_all
    have "\<bar>y - q\<bar> \<le> \<bar>d - q\<bar>" if "isDouble d" for d
    proof -
      from round_pos_nearest[OF a isDouble_minus[OF that]]
      have "\<bar>?r - ?a\<bar> \<le> \<bar>- d - ?a\<bar>" .
      thus ?thesis unfolding yq(1) using yq(2) by (simp add: abs_minus_commute)
    qed
    with isDouble_minus[OF dbl] show ?thesis
      unfolding nearestDouble_def yq(1) by simp
  qed
qed


lemma fl_finite:
  assumes "\<bar>q\<bar> \<le> 10 ^ 22"
  shows "\<exists>y. fl q = Fin y"
proof (cases "q = 0")
  case True
  then show ?thesis by (simp add: fl_def)
next
  case False
  hence a: "0 < \<bar>q\<bar>" by simp
  have "(10::rat) ^ 22 < power_int 2 74" by (simp add: power_int_def)
  with assms ilog2_bounds(1)[OF a] have lt: "power_int (2::rat) (ilog2 \<bar>q\<bar>) < power_int 2 74"
    by linarith
  have "ilog2 \<bar>q\<bar> < 74"
    by (rule power_int_le_imp_less_exp[OF _ lt]) simp_all
  hence "expo \<bar>q\<bar> < 971" by (simp add: expo_def)
  hence "\<not> overflows \<bar>q\<bar>" by (simp add: overflows_def)
  with False show ?thesis by (simp add: fl_def)
qed

lemma fl_overflow:
  assumes "power_int 2 1024 \<le> \<bar>q\<bar>"
  shows "fl q = (if 0 < q then PosInf else NegInf)"
proof -
  have "0 < power_int (2::rat) 1024" by simp
  with assms have a: "0 < \<bar>q\<bar>" by linarith
  hence q: "q \<noteq> 0" by simp
  have "1024 \<le> ilog2 \<bar>q\<bar>"
  proof (rule ccontr)
    assume "\<not> 1024 \<le> ilog2 \<bar>q\<bar>"
    hence "ilog2 \<bar>q\<bar> + 1 \<le> 1024" by simp
    hence "power_int (2::rat) (ilog2 \<bar>q\<bar> + 1) \<le> power_int 2 1024"
      by (intro power_int_increasing) simp_all
    with ilog2_bounds(2)[OF a] assms show False by linarith
  qed
  hence "971 < expo \<bar>q\<bar>" by (simp add: expo_def)
  hence "overflows \<bar>q\<bar>" by (simp add: overflows_def)
  with q show ?thesis by (simp add: fl_def)
qed

text \<open>A quotient of \<open>10^321\<close> is beyond the doubles: the division gives \<open>Infinity\<close>.\<close>

lemma jdiv_overflows: "jdiv (Fin (10 ^ 308)) (Fin (1 / 10 ^ 13)) = PosInf"
proof -
  have "power_int (2::rat) 1024 \<le> \<bar>10 ^ 308 / (1 / 10 ^ 13)\<bar>"
    by (simp add: power_int_def)
  from fl_overflow[OF this] show ?thesis by simp
qed

lemma jdiv_nearest:
  assumes "b \<noteq> 0" and "jdiv (Fin a) (Fin b) = Fin x"
  shows "nearestDouble x (a / b)"
  using assms by (simp add: fl_nearest)

lemma toFixed2_rounds:
  assumes "\<bar>x\<bar> < 10 ^ 21"
  shows "\<exists>(n::int) y. toFixed2 (Fin x) = Fin y \<and> \<bar>of_int n / 100 - x\<bar> \<le> 1 / 200
           \<and> nearestDouble y (of_int n / 100)"
proof -
  define m where "m = \<lfloor>\<bar>x\<bar> * 100 + 1 / 2\<rfloor>"
  define n where "n = (if x < 0 then - m else m)"
  have f: "of_int m \<le> \<bar>x\<bar> * 100 + 1 / 2" "\<bar>x\<bar> * 100 + 1 / 2 < of_int m + 1"
    unfolding m_def by linarith+
  have h: "\<lfloor>(1::rat) / 2\<rfloor> = 0"
    by (rule floor_unique) simp_all
  have e: "sgn x * (of_int m / 100) = of_int n / 100"
    by (cases "x < 0"; cases "x = 0") (simp_all add: n_def m_def h)
  have c: "\<bar>of_int n / 100 - x\<bar> \<le> 1 / 200"
  proof (cases "x < 0")
    case True
    hence n: "(of_int n :: rat) = - of_int m" and a: "\<bar>x\<bar> = - x" by (simp_all add: n_def)
    from f have "of_int n / 100 - x \<le> 1 / 200" and "- (of_int n / 100 - x) \<le> 1 / 200"
      unfolding n a by linarith+
    thus ?thesis by (simp only: abs_le_iff)
  next
    case False
    hence n: "(of_int n :: rat) = of_int m" and a: "\<bar>x\<bar> = x" by (simp_all add: n_def)
    from f have "of_int n / 100 - x \<le> 1 / 200" and "- (of_int n / 100 - x) \<le> 1 / 200"
      unfolding n a by linarith+
    thus ?thesis by (simp only: abs_le_iff)
  qed
  have "\<bar>of_int n / 100 :: rat\<bar> \<le> \<bar>of_int n / 100 - x\<bar> + \<bar>x\<bar>" by arith
  also from c assms have "\<dots> \<le> 1 / 200 + 10 ^ 21" by linarith
  also have "\<dots> \<le> 10 ^ 22" by simp
  finally have "\<bar>of_int n / 100 :: rat\<bar> \<le> 10 ^ 22" .
  from fl_finite[OF this] obtain y where y: "fl (of_int n / 100) = Fin y" ..
  from assms have t: "toFixed2 (Fin x) = fl (of_int n / 100)"
    by (simp add: e[symmetric] m_def)
  from t y c fl_nearest[OF y] show ?thesis by auto
qed

text \<open>The rounding computed on the numerator and the denominator is the same function.\<close>

lemma pow2_nonneg: "0 \<le> k \<Longrightarrow> power_int (2::rat) k = of_int (2 ^ nat k)"
  by (simp add: power_int_def)

lemma pow2_neg: "k < 0 \<Longrightarrow> power_int (2::rat) k = 1 / of_int (2 ^ nat (- k))"
  by (simp add: power_int_def field_simps)

lemma le_pow2_iff:
  assumes "0 < d"
  shows "le_pow2 k n d \<longleftrightarrow> power_int 2 k \<le> (of_int n / of_int d :: rat)"
proof (cases "0 \<le> k")
  case True
  have "power_int 2 k \<le> (of_int n / of_int d :: rat) \<longleftrightarrow> (of_int (2 ^ nat k * d) :: rat) \<le> of_int n"
    using assms by (simp add: pow2_nonneg[OF True] pos_le_divide_eq)
  also have "\<dots> \<longleftrightarrow> 2 ^ nat k * d \<le> n" by (simp only: of_int_le_iff)
  finally show ?thesis using True by (simp add: le_pow2_def)
next
  case False
  hence k: "k < 0" by simp
  have "power_int 2 k \<le> (of_int n / of_int d :: rat) \<longleftrightarrow> (of_int d :: rat) \<le> of_int (n * 2 ^ nat (- k))"
    using assms by (simp add: pow2_neg[OF k] field_simps)
  also have "\<dots> \<longleftrightarrow> d \<le> n * 2 ^ nat (- k)" by (simp only: of_int_le_iff)
  finally show ?thesis using k by (simp add: le_pow2_def)
qed

lemma ilog2_at_bounds:
  fixes a :: rat
  assumes npos: "0 < n" and dpos: "0 < d" and a: "a = of_int n / of_int d"
  shows "power_int 2 (ilog2_at n d (bitlen n - bitlen d)) \<le> a"
    and "a < power_int 2 (ilog2_at n d (bitlen n - bitlen d) + 1)"
proof -
  define k where "k = bitlen n - bitlen d"
  from dpos have dr: "0 < (of_int d :: rat)" by simp
  from a dr have ad: "a * of_int d = of_int n" by simp
  note bn = bitlen_rat_bounds[OF npos]
  note bd = bitlen_rat_bounds[OF dpos]
  have "a * of_int d < power_int (2::rat) (k + 1) * power_int 2 (bitlen d - 1)"
    using bn(2) ad by (simp add: k_def pow2_add[symmetric])
  also have "\<dots> \<le> power_int 2 (k + 1) * of_int d"
    using bd(1) by (simp add: mult_left_mono)
  finally have up: "a < power_int 2 (k + 1)" using dr by simp
  have "power_int (2::rat) (k - 1) * of_int d < power_int 2 (k - 1) * power_int 2 (bitlen d)"
    using bd(2) by (simp add: mult_strict_left_mono)
  also have "\<dots> \<le> a * of_int d"
    using bn(1) ad by (simp add: k_def pow2_add[symmetric])
  finally have lo: "power_int 2 (k - 1) < a" using dr by simp
  have i: "ilog2_at n d k = (if power_int 2 k \<le> a then k else k - 1)"
    by (simp add: ilog2_at_def le_pow2_iff[OF dpos] a)
  show "power_int 2 (ilog2_at n d (bitlen n - bitlen d)) \<le> a"
    using lo unfolding k_def[symmetric] by (simp add: i)
  show "a < power_int 2 (ilog2_at n d (bitlen n - bitlen d) + 1)"
    using up unfolding k_def[symmetric] by (simp add: i)
qed

lemma ilog2_unique:
  fixes a :: rat
  assumes "power_int 2 i \<le> a" "a < power_int 2 (i + 1)"
      and "power_int 2 j \<le> a" "a < power_int 2 (j + 1)"
  shows "i = j"
proof (rule ccontr)
  assume "i \<noteq> j"
  hence "i + 1 \<le> j \<or> j + 1 \<le> i" by linarith
  thus False
  proof
    assume "i + 1 \<le> j"
    hence "power_int (2::rat) (i + 1) \<le> power_int 2 j" by (intro power_int_increasing) simp_all
    with assms show False by linarith
  next
    assume "j + 1 \<le> i"
    hence "power_int (2::rat) (j + 1) \<le> power_int 2 i" by (intro power_int_increasing) simp_all
    with assms show False by linarith
  qed
qed

lemma roundEven_frac:
  assumes "0 < d"
  shows "roundEven (of_int n / of_int d) = roundDiv n d"
proof -
  let ?t = "of_int n / of_int d :: rat"
  from assms have dr: "0 < (of_int d :: rat)" by simp
  have fl: "\<lfloor>?t\<rfloor> = n div d" by (rule floor_divide_of_int_eq)
  have "(of_int n :: rat) = of_int (n div d * d + n mod d)" by simp
  hence "(of_int n :: rat) = of_int (n div d) * of_int d + of_int (n mod d)"
    by (simp only: of_int_add of_int_mult)
  hence "?t = of_int (n div d) + of_int (n mod d) / of_int d"
    using dr by (simp add: field_simps)
  hence f: "?t - of_int (n div d) = of_int (n mod d) / of_int d"
    by simp
  have lt: "of_int (n mod d) / (of_int d :: rat) < 1 / 2 \<longleftrightarrow> 2 * (n mod d) < d"
  proof -
    have "of_int (n mod d) / (of_int d :: rat) < 1 / 2 \<longleftrightarrow> (of_int (2 * (n mod d)) :: rat) < of_int d"
      using dr by (simp add: field_simps)
    thus ?thesis by (simp only: of_int_less_iff)
  qed
  have gt: "1 / 2 < of_int (n mod d) / (of_int d :: rat) \<longleftrightarrow> d < 2 * (n mod d)"
  proof -
    have "1 / 2 < of_int (n mod d) / (of_int d :: rat) \<longleftrightarrow> (of_int d :: rat) < of_int (2 * (n mod d))"
      using dr by (simp add: field_simps)
    thus ?thesis by (simp only: of_int_less_iff)
  qed
  show ?thesis
    by (simp only: roundEven_def Let_def fl f lt gt roundDiv_def roundRem_def)
qed

lemma fl_code [code]: "fl q = (case quotient_of q of (n, d) \<Rightarrow> fl_frac n d)"
proof -
  obtain n d where qd: "quotient_of q = (n, d)" by (cases "quotient_of q")
  have d: "0 < d" by (rule quotient_of_denom_pos[OF qd])
  hence dr: "0 < (of_int d :: rat)" by simp
  have q: "q = of_int n / of_int d" by (rule quotient_of_div[OF qd])
  show ?thesis
  proof (cases "n = 0")
    case True
    with q show ?thesis by (simp add: qd fl_def fl_frac_def)
  next
    case False
    hence n: "0 < \<bar>n\<bar>" by simp
    from False q dr have q0: "q \<noteq> 0" by simp
    have a: "\<bar>q\<bar> = of_int \<bar>n\<bar> / of_int d" using d by (simp add: q)
    from q0 have apos: "0 < \<bar>q\<bar>" by simp
    have i: "ilog2 \<bar>q\<bar> = ilog2_at \<bar>n\<bar> d (bitlen \<bar>n\<bar> - bitlen d)"
      by (rule ilog2_unique[OF ilog2_bounds[OF apos] ilog2_at_bounds[OF n d a]])
    define e where "e = expo \<bar>q\<bar>"
    have e: "e = max (- 1074) (ilog2_at \<bar>n\<bar> d (bitlen \<bar>n\<bar> - bitlen d) - 52)"
      by (simp add: e_def expo_def i)
    define m where "m = signif \<bar>q\<bar>"
    have m: "m = (if 0 \<le> e then roundDiv \<bar>n\<bar> (d * 2 ^ nat e) else roundDiv (\<bar>n\<bar> * 2 ^ nat (- e)) d)"
    proof (cases "0 \<le> e")
      case True
      have eq: "\<bar>q\<bar> / power_int 2 e = of_int \<bar>n\<bar> / of_int (d * 2 ^ nat e)"
        by (simp add: a pow2_nonneg[OF True])
      have pos: "0 < d * 2 ^ nat e" using d by simp
      have "m = roundEven (\<bar>q\<bar> / power_int 2 e)" by (simp add: m_def signif_def e_def)
      also have "\<dots> = roundDiv \<bar>n\<bar> (d * 2 ^ nat e)"
        by (simp only: eq roundEven_frac[OF pos])
      finally show ?thesis using True by simp
    next
      case False
      hence "e < 0" by simp
      hence eq: "\<bar>q\<bar> / power_int 2 e = of_int (\<bar>n\<bar> * 2 ^ nat (- e)) / of_int d"
        by (simp add: a pow2_neg)
      have "m = roundEven (\<bar>q\<bar> / power_int 2 e)" by (simp add: m_def signif_def e_def)
      also have "\<dots> = roundDiv (\<bar>n\<bar> * 2 ^ nat (- e)) d"
        by (simp only: eq roundEven_frac[OF d])
      finally show ?thesis using False by simp
    qed
    have qpos: "0 < q \<longleftrightarrow> 0 < n"
      using dr by (simp add: q zero_less_divide_iff)
    have s: "sgn q = of_int (sgn n)"
      using qpos q0 False by (cases "0 < n") (simp_all add: sgn_if)
    have v: "sgn q * (of_int m * power_int 2 e) =
               (if 0 \<le> e then of_int (sgn n * m * 2 ^ nat e)
                else of_int (sgn n * m) / of_int (2 ^ nat (- e)))"
      by (cases "0 \<le> e") (simp_all add: s pow2_nonneg pow2_neg)
    have p: "0 < q \<longleftrightarrow> 0 < sgn n"
      using qpos by simp
    have "fl q = fl_result (sgn n) m e"
      using q0 v p by (simp add: fl_def overflows_def e_def[symmetric] m_def[symmetric] fl_result_def)
    also have "\<dots> = fl_at n d e" by (simp add: fl_at_def m)
    also have "\<dots> = fl_frac n d" using False by (simp add: fl_frac_def e)
    finally show ?thesis by (simp add: qd)
  qed
qed

text \<open>
  Examples: the doubles nearest to 0.1 and to 5.02, a tie that goes to the even
  significand, the smallest subnormal number, and three tenths computed as \<open>3 * 0.1\<close>.
\<close>

lemma fl_examples:
  "fl (1 / 10) = Fin (3602879701896397 / 36028797018963968)"
  "fl (251 / 50) = Fin (1413004383087493 / 281474976710656)"
  "fl (2 ^ 53 + 1) = Fin (2 ^ 53)"
  "fl (2 ^ 53 + 3) = Fin (2 ^ 53 + 4)"
  "jmul (Fin 3) (fl (1 / 10)) = Fin (1351079888211149 / 4503599627370496)"
  "fl (3 / 10) = Fin (5404319552844595 / 18014398509481984)"
  by code_simp+

section \<open>The matcher and the reference parser agree\<close>

text \<open>
  Case folding: a character whose lower case is an ASCII letter is that letter or its
  capital, so a letter of the patterns is a word character and neither a digit, a dot nor
  white space.
\<close>

lemma lowerChar_letter:
  assumes "lowerChar c = l" and "(of_char l :: nat) = m" and "m \<le> 122"
  shows "c = l \<or> c = char_of (m - 32)"
proof (cases "lowerChar c = c")
  case True
  then show ?thesis using assms by simp
next
  case False
  let ?n = "of_char c :: nat"
  from False have r: "?n \<le> 222" and e: "lowerChar c = char_of (?n + 32)"
    by (auto simp: lowerChar_def Let_def split: if_splits)
  from e assms have "(of_char (char_of (?n + 32) :: char) :: nat) = m" by simp
  hence "(?n + 32) mod 256 = m" by simp
  with r have "?n + 32 = m" by simp
  hence "?n = m - 32" by simp
  hence "char_of ?n = (char_of (m - 32) :: char)" by simp
  thus ?thesis by simp
qed

lemma char_of_upper:
  "char_of (71::nat) = CHR ''G''" "char_of (75::nat) = CHR ''K''" "char_of (77::nat) = CHR ''M''"
  "char_of (76::nat) = CHR ''L''" "char_of (88::nat) = CHR ''X''"
  by (simp_all add: char_of_eq_iff take_bit_eq_mod)

lemma letter_cases:
  assumes "lowerChar c = l" and "l \<in> set ''gkmlx''"
  shows "c \<in> set ''gkmlxGKMLX''"
proof -
  from assms(2) consider "l = CHR ''g''" | "l = CHR ''k''" | "l = CHR ''m''" | "l = CHR ''l''" | "l = CHR ''x''"
    by auto
  then show ?thesis
  proof cases
    case 1 with lowerChar_letter[OF assms(1), of 103] show ?thesis by (auto simp: char_of_upper)
  next
    case 2 with lowerChar_letter[OF assms(1), of 107] show ?thesis by (auto simp: char_of_upper)
  next
    case 3 with lowerChar_letter[OF assms(1), of 109] show ?thesis by (auto simp: char_of_upper)
  next
    case 4 with lowerChar_letter[OF assms(1), of 108] show ?thesis by (auto simp: char_of_upper)
  next
    case 5 with lowerChar_letter[OF assms(1), of 120] show ?thesis by (auto simp: char_of_upper)
  qed
qed

lemma letter_word:
  assumes "lowerChar c = l" and "l \<in> set ''gkmlx''"
  shows "isWordChar c" and "\<not> isSpace c" and "\<not> isDigitOrDot c" and "\<not> isDigit c"
  using letter_cases[OF assms]
  by (auto simp: isWordChar_def isSpace_def isDigitOrDot_def isDigit_def)

lemma digit_not_space: "isDigitOrDot c \<Longrightarrow> \<not> isSpace c"
  by (auto simp: isSpace_def isDigitOrDot_def isDigit_def)

lemma digit_digitOrDot: "isDigit c \<Longrightarrow> isDigitOrDot c"
  by (simp add: isDigitOrDot_def)

lemma star_loop_max:
  assumes "\<And>b z zs. in_cls C z \<Longrightarrow> k (b, z # zs, caps) = None"
  shows "star_loop C k bef xs caps
           = k (rev (takeWhile (in_cls C) xs) @ bef, dropWhile (in_cls C) xs, caps)"
  using assms
proof (induction xs arbitrary: bef)
  case Nil
  then show ?case by simp
next
  case (Cons x xs)
  show ?case
  proof (cases "in_cls C x")
    case True
    have "star_loop C k (x # bef) xs caps
            = k (rev (takeWhile (in_cls C) xs) @ x # bef, dropWhile (in_cls C) xs, caps)"
      using Cons.IH[of "x # bef"] Cons.prems by simp
    with True Cons.prems[OF True] show ?thesis by (simp split: option.splits)
  next
    case False
    then show ?thesis by simp
  qed
qed

lemma units_match:
  "rmatch units_re k (b, t, cp) =
     (case t of
        [] \<Rightarrow> None
      | c1 # r1 \<Rightarrow>
          if lowerChar c1 = CHR ''g'' then k (c1 # b, r1, cp)
          else if lowerChar c1 = CHR ''k''
          then (case r1 of [] \<Rightarrow> None
                | c2 # r2 \<Rightarrow> if lowerChar c2 = CHR ''g'' then k (c2 # c1 # b, r2, cp) else None)
          else if lowerChar c1 = CHR ''m''
          then (case r1 of [] \<Rightarrow> None
                | c2 # r2 \<Rightarrow> if lowerChar c2 = CHR ''l'' then k (c2 # c1 # b, r2, cp) else None)
          else if lowerChar c1 = CHR ''l'' then k (c1 # b, r1, cp)
          else None)"
  by (simp add: units_re_def split: list.splits option.splits)


lemma boundary_after_word:
  "isWordChar c \<Longrightarrow> is_boundary (c # b) r = wordEnds r"
  by (cases r) (auto simp: is_boundary_def wordEnds_def)

lemma unit_tail:
  "rmatch (Seq (Group i units_re) WordBoundary) (\<lambda>st. Some (snd (snd st))) (b, t, cp) =
     (case unitAt t of None \<Rightarrow> None | Some u \<Rightarrow> Some (cp(i \<mapsto> u)))"
proof (cases t)
  case Nil
  then show ?thesis by (simp add: units_match unitAt_def toLowerCase_def)
next
  case (Cons c1 r1)
  note t = Cons
  show ?thesis
  proof (cases r1)
    case Nil
    with t show ?thesis
      by (auto simp: units_match unitAt_def toLowerCase_def close_group_def
            boundary_after_word letter_word wordEnds_def)
  next
    case (Cons c2 r2)
    with t show ?thesis
      by (auto simp: units_match unitAt_def toLowerCase_def close_group_def
            boundary_after_word letter_word)
  qed
qed


lemma unitAt_letter:
  "unitAt (z # zs) = Some u \<Longrightarrow> lowerChar z \<in> set ''gkml''"
  by (auto simp: unitAt_def toLowerCase_def split: if_splits)

lemma unitAt_not_space: "isSpace z \<Longrightarrow> unitAt (z # zs) = None"
  using unitAt_letter[of z zs] letter_word(2)[of z "lowerChar z"]
  by (cases "unitAt (z # zs)") auto

lemma unitAt_not_digit: "isDigitOrDot z \<Longrightarrow> unitAt (z # zs) = None"
  using unitAt_letter[of z zs] letter_word(3)[of z "lowerChar z"]
  by (cases "unitAt (z # zs)") auto

lemma spaces_unit_tail:
  "rmatch (Seq (Star Space) (Seq (Group i units_re) WordBoundary))
      (\<lambda>st. Some (snd (snd st))) (b, t, cp) =
     (case unitAt (dropWhile isSpace t) of None \<Rightarrow> None | Some u \<Rightarrow> Some (cp(i \<mapsto> u)))"
proof -
  let ?K = "rmatch (Seq (Group i units_re) WordBoundary) (\<lambda>st. Some (snd (snd st)))"
  have fail: "\<And>b z zs. in_cls Space z \<Longrightarrow> ?K (b, z # zs, cp) = None"
    by (simp only: unit_tail) (simp add: unitAt_not_space)
  have "rmatch (Seq (Star Space) (Seq (Group i units_re) WordBoundary))
          (\<lambda>st. Some (snd (snd st))) (b, t, cp) = star_loop Space ?K b t cp"
    by simp
  also have "\<dots> = ?K (rev (takeWhile (in_cls Space) t) @ b, dropWhile (in_cls Space) t, cp)"
    by (rule star_loop_max) (rule fail)
  also have "\<dots> = (case unitAt (dropWhile isSpace t) of None \<Rightarrow> None
                      | Some u \<Rightarrow> Some (cp(i \<mapsto> u)))"
    by (simp only: unit_tail) (simp add: in_cls.simps[abs_def])
  finally show ?thesis .
qed

lemma in_cls_eta:
  "in_cls Space = isSpace" "in_cls Digit = isDigit" "in_cls DigitOrDot = isDigitOrDot"
  by (simp_all add: fun_eq_iff)

lemma amount_tail:
  "rmatch (Seq (Group j (Plus DigitOrDot)) (Seq (Star Space) (Seq (Group i units_re) WordBoundary)))
      (\<lambda>st. Some (snd (snd st))) (b, t, cp) =
     (case amountUnitAt t of
        None \<Rightarrow> None
      | Some (am, u) \<Rightarrow> Some (cp(j \<mapsto> am, i \<mapsto> u)))"
proof (cases t)
  case Nil
  then show ?thesis by (simp add: amountUnitAt_def)
next
  case (Cons x xs)
  show ?thesis
  proof (cases "isDigitOrDot x")
    case False
    with Cons show ?thesis by (simp add: amountUnitAt_def)
  next
    case True
    let ?R = "Seq (Star Space) (Seq (Group i units_re) WordBoundary)"
    let ?K = "\<lambda>st'. rmatch ?R (\<lambda>st. Some (snd (snd st))) (close_group j b st')"
    have fail: "\<And>b' z zs. in_cls DigitOrDot z \<Longrightarrow> ?K (b', z # zs, cp) = None"
      by (simp only: close_group_def prod.case spaces_unit_tail)
         (simp add: digit_not_space unitAt_not_digit)
    have "rmatch (Seq (Group j (Plus DigitOrDot)) ?R) (\<lambda>st. Some (snd (snd st))) (b, t, cp)
            = star_loop DigitOrDot ?K (x # b) xs cp"
      using Cons True by simp
    also have "\<dots> = ?K (rev (takeWhile (in_cls DigitOrDot) xs) @ x # b,
                          dropWhile (in_cls DigitOrDot) xs, cp)"
      by (rule star_loop_max) (rule fail)
    also have "\<dots> = (case amountUnitAt t of
                         None \<Rightarrow> None
                       | Some (am, u) \<Rightarrow> Some (cp(j \<mapsto> am, i \<mapsto> u)))"
      using Cons True
      by (simp only: close_group_def prod.case spaces_unit_tail)
         (simp add: in_cls_eta amountUnitAt_def split: option.splits)
    finally show ?thesis .
  qed
qed


lemma lower_x: "lowerChar c = CHR ''x'' \<longleftrightarrow> c = CHR ''x'' \<or> c = CHR ''X''"
proof
  assume "lowerChar c = CHR ''x''"
  from lowerChar_letter[OF this, of 120] show "c = CHR ''x'' \<or> c = CHR ''X''"
    by (simp add: char_of_upper)
next
  assume "c = CHR ''x'' \<or> c = CHR ''X''"
  then show "lowerChar c = CHR ''x''"
    by (auto simp: lowerChar_def char_of_eq_iff take_bit_eq_mod)
qed

lemma amountUnitAt_not_space: "isSpace z \<Longrightarrow> amountUnitAt (z # zs) = None"
  using digit_not_space[of z] by (auto simp: amountUnitAt_def)

lemma multi_match:
  "rmatch multi_re (\<lambda>st. Some (snd (snd st))) (b, t, Map.empty) =
     (case multiPackAt t of
        None \<Rightarrow> None
      | Some (n, am, u) \<Rightarrow> Some [1 \<mapsto> n, 2 \<mapsto> am, 3 \<mapsto> u])"
proof -
  let ?k0 = "\<lambda>st :: mstate. Some (snd (snd st))"
  let ?AMT = "Seq (Group 2 (Plus DigitOrDot)) (Seq (Star Space) (Seq (Group 3 units_re) WordBoundary))"
  let ?X = "Seq (Atom (Letter CHR ''x'')) (Seq (Star Space) ?AMT)"
  have s1: "rmatch (Seq (Star Space) ?AMT) ?k0 (b', t', cp) =
              (case amountUnitAt (dropWhile isSpace t') of
                 None \<Rightarrow> None | Some (am, u) \<Rightarrow> Some (cp(2 \<mapsto> am, 3 \<mapsto> u)))" for b' t' cp
  proof -
    have "rmatch (Seq (Star Space) ?AMT) ?k0 (b', t', cp) = star_loop Space (rmatch ?AMT ?k0) b' t' cp"
      by simp
    also have "\<dots> = rmatch ?AMT ?k0 (rev (takeWhile (in_cls Space) t') @ b', dropWhile (in_cls Space) t', cp)"
      by (rule star_loop_max) (simp only: amount_tail, simp add: amountUnitAt_not_space)
    finally show ?thesis by (simp only: amount_tail in_cls_eta)
  qed
  have s2: "rmatch ?X ?k0 (b', t', cp) =
              (case t' of [] \<Rightarrow> None
               | c # r \<Rightarrow> if lowerChar c = CHR ''x''
                   then (case amountUnitAt (dropWhile isSpace r) of
                           None \<Rightarrow> None | Some (am, u) \<Rightarrow> Some (cp(2 \<mapsto> am, 3 \<mapsto> u)))
                   else None)" for b' t' cp
    using s1 by (cases t') (simp_all del: rmatch.simps(2) add: rmatch.simps(2)[of "Atom (Letter CHR ''x'')"])
  have x_space: "isSpace z \<Longrightarrow> lowerChar z \<noteq> CHR ''x''" for z
    using letter_word(2)[of z "CHR ''x''"] by auto
  have x_digit: "isDigit z \<Longrightarrow> lowerChar z \<noteq> CHR ''x''" for z
    using letter_word(4)[of z "CHR ''x''"] by auto
  have s3: "rmatch (Seq (Star Space) ?X) ?k0 (b', t', cp) =
              (case dropWhile isSpace t' of [] \<Rightarrow> None
               | c # r \<Rightarrow> if lowerChar c = CHR ''x''
                   then (case amountUnitAt (dropWhile isSpace r) of
                           None \<Rightarrow> None | Some (am, u) \<Rightarrow> Some (cp(2 \<mapsto> am, 3 \<mapsto> u)))
                   else None)" for b' t' cp
  proof -
    have "rmatch (Seq (Star Space) ?X) ?k0 (b', t', cp) = star_loop Space (rmatch ?X ?k0) b' t' cp"
      by simp
    also have "\<dots> = rmatch ?X ?k0 (rev (takeWhile (in_cls Space) t') @ b', dropWhile (in_cls Space) t', cp)"
      by (rule star_loop_max) (simp only: s2, simp add: x_space)
    finally show ?thesis by (simp only: s2 in_cls_eta)
  qed
  show ?thesis
  proof (cases t)
    case Nil
    then show ?thesis by (simp add: multi_re_def multiPackAt_def)
  next
    case (Cons x xs)
    show ?thesis
    proof (cases "isDigit x")
      case False
      with Cons show ?thesis by (simp add: multi_re_def multiPackAt_def)
    next
      case True
      let ?K = "\<lambda>st'. rmatch (Seq (Star Space) ?X) ?k0 (close_group 1 b st')"
      have fail: "\<And>b' z zs. in_cls Digit z \<Longrightarrow> ?K (b', z # zs, Map.empty) = None"
        by (simp only: close_group_def prod.case s3)
           (simp add: digit_not_space digit_digitOrDot x_digit)
      have "rmatch multi_re ?k0 (b, t, Map.empty) = star_loop Digit ?K (x # b) xs Map.empty"
        using Cons True by (simp add: multi_re_def)
      also have "\<dots> = ?K (rev (takeWhile (in_cls Digit) xs) @ x # b,
                            dropWhile (in_cls Digit) xs, Map.empty)"
        by (rule star_loop_max) (rule fail)
      also have "\<dots> = (case multiPackAt t of
                           None \<Rightarrow> None
                         | Some (n, am, u) \<Rightarrow> Some [1 \<mapsto> n, 2 \<mapsto> am, 3 \<mapsto> u])"
      proof (cases "dropWhile isSpace (dropWhile isDigit xs)")
        case Nil
        with Cons True show ?thesis
          by (simp only: close_group_def prod.case s3)
             (simp add: in_cls_eta multiPackAt_def del: dropWhile_eq_Nil_conv)
      next
        case (Cons c r)
        with \<open>t = x # xs\<close> True show ?thesis
          by (simp only: close_group_def prod.case s3)
             (simp add: in_cls_eta multiPackAt_def lower_x split: option.split
                del: dropWhile_eq_Nil_conv)
      qed
      finally show ?thesis .
    qed
  qed
qed

lemma single_match:
  "rmatch single_re (\<lambda>st. Some (snd (snd st))) (b, t, Map.empty) =
     (case amountUnitAt t of
        None \<Rightarrow> None
      | Some (am, u) \<Rightarrow> Some [1 \<mapsto> am, 2 \<mapsto> u])"
  unfolding single_re_def by (rule amount_tail)

lemma match_from_multi:
  "match_from multi_re b s =
     (case firstAt multiPackAt s of
        None \<Rightarrow> None
      | Some (n, am, u) \<Rightarrow> Some [1 \<mapsto> n, 2 \<mapsto> am, 3 \<mapsto> u])"
  by (induction s arbitrary: b) (simp_all add: multi_match split: option.splits)

lemma match_from_single:
  "match_from single_re b s =
     (case firstAt amountUnitAt s of
        None \<Rightarrow> None
      | Some (am, u) \<Rightarrow> Some [1 \<mapsto> am, 2 \<mapsto> u])"
  by (induction s arbitrary: b) (simp_all add: single_match split: option.splits)

lemma sizeToKg_refines: "sizeToKg s = sizeToKg_spec s"
  by (simp add: sizeToKg_def sizeToKg_spec_def match_def match_from_multi match_from_single
        split: option.splits)

text \<open>
  White space before the unit is accepted, a unit that is only the beginning of a word is
  not, and an amount that is not a decimal literal makes the result \<open>NaN\<close>. The
  results are doubles: three packs of \<open>0.1kg\<close> are 0.30000000000000004 kilograms.
\<close>

lemma sizeToKg_space_before_unit: "sizeToKg ''500 mL'' = Some (Fin (1 / 2))"
  by code_simp

lemma sizeToKg_other_unit: "sizeToKg ''100grams'' = None"
  by code_simp

lemma sizeToKg_malformed_amount: "sizeToKg ''1.2.3kg'' = Some NaN"
  by code_simp

lemma sizeToKg_doubles: "sizeToKg ''3 x 0.1kg'' = Some (Fin (1351079888211149 / 4503599627370496))"
  by code_simp

text \<open>
  C1. The unit parser equals the reference definition on every string: the multi-pack
  pattern is tried first and gives \<open>N * unitToKg(amount, unit)\<close>, then the single
  pattern gives \<open>unitToKg(amount, unit)\<close>, otherwise the result is \<open>null\<close>; so wherever the
  multi-pack pattern occurs in the text it decides the result. \<open>unitToKg\<close> maps \<open>g\<close> and
  \<open>ml\<close> to a thousandth of the amount, \<open>kg\<close> and \<open>l\<close> to the amount, in either case, and
  every other unit to \<open>null\<close>. The examples of the specification hold; where a
  single size comes before a multi-pack, \<open>2 x 100g\<close> after \<open>500g\<close>, the result is that
  of the multi-pack, the double nearest to 0.2.
\<close>

theorem sizeToKg_reference:
  "sizeToKg s = sizeToKg_spec s
   \<and> (\<forall>n amount u. firstAt multiPackAt s = Some (n, amount, u) \<longrightarrow>
          sizeToKg s = Some (jmul (strToNumber n) (nullToNum (unitToKg (strToNumber amount) (Some u)))))
   \<and> unitToKg q (Some u) =
         (if toLowerCase u = ''g'' then Some (jdiv q (Fin 1000))
          else if toLowerCase u = ''kg'' then Some q
          else if toLowerCase u = ''ml'' then Some (jdiv q (Fin 1000))
          else if toLowerCase u = ''l'' then Some q
          else None)
   \<and> sizeToKg ''6 x 250g'' = Some (Fin (3 / 2))
   \<and> sizeToKg ''1.5kg'' = Some (Fin (3 / 2))
   \<and> sizeToKg ''500ml'' = Some (Fin (1 / 2))
   \<and> sizeToKg ''2L'' = Some (Fin 2)
   \<and> sizeToKg [] = None
   \<and> sizeToKg ''assorted'' = None
   \<and> sizeToKg ''500g 2 x 100g'' = Some (Fin (3602879701896397 / 18014398509481984))"
proof -
  have ref: "sizeToKg s = sizeToKg_spec s"
    by (rule sizeToKg_refines)
  have multi: "\<forall>n amount u. firstAt multiPackAt s = Some (n, amount, u) \<longrightarrow>
          sizeToKg s = Some (jmul (strToNumber n) (nullToNum (unitToKg (strToNumber amount) (Some u))))"
    by (simp add: sizeToKg_refines sizeToKg_spec_def)
  have units: "unitToKg q (Some u) =
         (if toLowerCase u = ''g'' then Some (jdiv q (Fin 1000))
          else if toLowerCase u = ''kg'' then Some q
          else if toLowerCase u = ''ml'' then Some (jdiv q (Fin 1000))
          else if toLowerCase u = ''l'' then Some q
          else None)"
    by (simp add: unitToKg_def)
  have e1: "sizeToKg ''6 x 250g'' = Some (Fin (3 / 2))" by code_simp
  have e2: "sizeToKg ''1.5kg'' = Some (Fin (3 / 2))" by code_simp
  have e3: "sizeToKg ''500ml'' = Some (Fin (1 / 2))" by code_simp
  have e4: "sizeToKg ''2L'' = Some (Fin 2)" by code_simp
  have e5: "sizeToKg [] = None" by code_simp
  have e6: "sizeToKg ''assorted'' = None" by code_simp
  have e7: "sizeToKg ''500g 2 x 100g'' = Some (Fin (3602879701896397 / 18014398509481984))"
    by code_simp
  from ref multi units e1 e2 e3 e4 e5 e6 e7 show ?thesis by blast
qed

theorem sizeToKg_reference_witness:
  "firstAt multiPackAt ''12X 1.5 Kg pack'' = Some (''12'', ''1.5'', ''Kg'')
   \<and> sizeToKg_spec ''12X 1.5 Kg pack'' = Some (Fin 18)
   \<and> sizeToKg ''12X 1.5 Kg pack'' = Some (Fin 18)"
proof -
  have a: "firstAt multiPackAt ''12X 1.5 Kg pack'' = Some (''12'', ''1.5'', ''Kg'')"
    by code_simp
  have b: "sizeToKg_spec ''12X 1.5 Kg pack'' = Some (Fin 18)"
    by code_simp
  from a b sizeToKg_reference [of "''12X 1.5 Kg pack''"] show ?thesis
    by simp
qed

section \<open>The normalizer: numbers, prices per kilogram, candidate fields\<close>

lemma truthy_kg:
  assumes "truthy_opt (sizeToKg s)"
  shows "\<exists>kg. sizeToKg s = Some kg \<and> truthy_num kg"
  using assms by (cases "sizeToKg s") auto

lemma toNumber_finite: "toNumber v = Some n \<Longrightarrow> \<exists>q. n = Fin q"
  by (cases v; cases n) (auto simp: finiteOrNull_def split: if_splits)

lemma fl_not_NaN: "fl q \<noteq> NaN"
  by (simp add: fl_def)

lemma jdiv_not_NaN: "truthy_num kg \<Longrightarrow> jdiv (Fin p) kg \<noteq> NaN"
  by (cases kg) (simp_all add: fl_not_NaN)

lemma toFixed2_not_NaN: "x \<noteq> NaN \<Longrightarrow> toFixed2 x \<noteq> NaN"
  by (cases x) (simp_all add: fl_not_NaN)

lemma normalize_size_string:
  assumes "normalize_obj obj = Inr r"
  shows "\<exists>s. size_field r = Str s"
proof -
  let ?sz = "jor (getProp obj ''productSize'')
               (jor (getProp obj ''packageSize'') (jor (getProp obj ''size'') (Str [])))"
  from assms obtain kg where k: "sizeToKg_call ?sz = Inr kg" and r: "size_field r = ?sz"
    by (auto simp: normalize_obj_def Let_def split: sum.splits)
  have "truthy ?sz \<or> ?sz = Str []" by (auto simp: jor_def)
  with k have "\<exists>s. ?sz = Str s" by (cases ?sz) auto
  with r show ?thesis by simp
qed

lemma normalize_pricePerKg:
  assumes "normalize_obj obj = Inr r" and "size_field r = Str s"
  shows "pricePerKg r =
           (if truthy_opt (sizeToKg s) \<and> truthy_opt (price r)
            then Some (toFixed2 (jdiv (nullToNum (price r)) (nullToNum (sizeToKg s))))
            else None)"
    and "\<exists>v. price r = toNumber v"
  using assms by (auto simp: normalize_obj_def Let_def split: sum.splits)


lemma truthy_price:
  assumes "normalize_obj obj = Inr r" and "truthy_opt (price r)"
  shows "\<exists>p. price r = Some (Fin p) \<and> p \<noteq> 0"
proof -
  from assms(2) obtain n where n: "price r = Some n" and t: "truthy_num n"
    by (cases "price r") auto
  from normalize_size_string[OF assms(1)] obtain s where s: "size_field r = Str s" ..
  from normalize_pricePerKg(2)[OF assms(1) s] obtain v where "price r = toNumber v" ..
  with n have "toNumber v = Some n" by simp
  from toNumber_finite[OF this] obtain q where q: "n = Fin q" ..
  with t have "q \<noteq> 0" by simp
  with n q show ?thesis by blast
qed


lemma normalize_example_priced:
  "normalize_raw id example_priced =
     Inr \<lparr> product_field = Str [], size_field = Str ''2kg'', price = Some (Fin 10),
           pricePerKg = Some (Fin 5), url = Str [], id_field = Str [] \<rparr>"
  by code_simp

text \<open>
  C6. \<open>toNumber\<close> returns a number unchanged when it is finite; from a string it drops
  every character that is neither a digit nor a dot and parses what is left; the result is
  \<open>null\<close> when the input is \<open>null\<close> or \<open>undefined\<close> or the number obtained is not
  finite, so a result is always finite. \<open>toNumber("$4.50")\<close> is 4.5, and
  \<open>toNumber(null)\<close> and \<open>toNumber("abc")\<close> are \<open>null\<close>.
\<close>

theorem toNumber_coercion:
  "toNumber (Num n) = (if isFinite n then Some n else None)
   \<and> toNumber (Str s) =
        (let x = parseFloat (filter (\<lambda>c. isDigit c \<or> c = CHR ''.'') s)
         in if isFinite x then Some x else None)
   \<and> toNumber Null = None
   \<and> toNumber Undefined = None
   \<and> (\<forall>x. toNumber v = Some x \<longrightarrow> isFinite x)
   \<and> toNumber (Str ''$4.50'') = Some (Fin (9 / 2))
   \<and> toNumber (Str ''abc'') = None"
proof -
  have a: "toNumber (Str s) =
        (let x = parseFloat (filter (\<lambda>c. isDigit c \<or> c = CHR ''.'') s)
         in if isFinite x then Some x else None)"
    by (simp add: finiteOrNull_def isDigitOrDot_def[abs_def] Let_def)
  have b: "\<forall>x. toNumber v = Some x \<longrightarrow> isFinite x"
    using toNumber_finite[of v] by auto
  have c: "toNumber (Str ''$4.50'') = Some (Fin (9 / 2))" by code_simp
  have d: "toNumber (Str ''abc'') = None" by code_simp
  have e: "toNumber (Num n) = (if isFinite n then Some n else None)"
    by (simp add: finiteOrNull_def)
  have f: "toNumber Null = None" "toNumber Undefined = None"
    by simp_all
  show ?thesis
    by (intro conjI) (rule e a f b c d)+
qed

theorem toNumber_coercion_witness:
  "toNumber (Num (Fin 3)) = Some (Fin 3)
   \<and> toNumber (Str ''1,234.50 each'') = Some (Fin (2469 / 2))
   \<and> isFinite (Fin (2469 / 2))"
proof -
  have a: "toNumber (Str ''1,234.50 each'') = Some (Fin (2469 / 2))" by code_simp
  have b: "toNumber (Num (Fin 3)) = (if isFinite (Fin 3) then Some (Fin 3) else None)"
    using toNumber_coercion [of "Fin 3" "''1,234.50 each''" "Str ''1,234.50 each''"]
    by (rule conjunct1)
  have c: "isFinite (Fin (2469 / 2))" by simp
  from b have "toNumber (Num (Fin 3)) = Some (Fin 3)" by simp
  with a c show ?thesis by (intro conjI)
qed




text \<open>
  The arithmetic is that of the doubles. A price of \<open>$2.01\<close> for \<open>400g\<close> is 5.025 a
  kilogram exactly, but the doubles nearest to 2.01 and to 0.4 have the quotient
  5.0249999999999995, and the record gets the double nearest to 5.02.
\<close>

lemma normalize_example_rounding:
  "normalize_raw id example_rounding =
     Inr \<lparr> product_field = Str [], size_field = Str ''400g'',
           price = Some (Fin (1131529406376837 / 562949953421312)),
           pricePerKg = Some (Fin (1413004383087493 / 281474976710656)),
           url = Str [], id_field = Str [] \<rparr>"
  by code_simp

text \<open>
  C2. In every record the normalizer produces, \<open>pricePerKg\<close> is not \<open>null\<close> only if
  \<open>price\<close> is not \<open>null\<close> and the size string parsed to a kilogram equivalent; a
  \<open>pricePerKg\<close> that is not \<open>null\<close> is the price divided by that kilogram equivalent
  and rounded to two decimal places, in the arithmetic of doubles: the quotient is the
  double nearest to the exact quotient, and the result the double nearest to the number
  of two decimals that is nearest to that double (the quotient itself from \<open>10^21\<close> on).
  A record whose price is \<open>null\<close> has \<open>pricePerKg\<close> \<open>null\<close>. The record built
  from price 10 and size \<open>2kg\<close> has \<open>pricePerKg\<close> 5.
\<close>

theorem pricePerKg_invariant:
  assumes "normalize_raw cc raw = Inr r"
  shows "(pricePerKg r \<noteq> None \<longrightarrow>
            price r \<noteq> None \<and> (\<exists>s kg. size_field r = Str s \<and> sizeToKg s = Some kg))
       \<and> (\<forall>v. pricePerKg r = Some v \<longrightarrow>
            (\<exists>p s kg. price r = Some (Fin p) \<and> p \<noteq> 0 \<and> size_field r = Str s
                 \<and> sizeToKg s = Some kg \<and> truthy_num kg
                 \<and> v = toFixed2 (jdiv (Fin p) kg)
                 \<and> (\<forall>k x. kg = Fin k \<and> jdiv (Fin p) kg = Fin x \<longrightarrow>
                        nearestDouble x (p / k)
                        \<and> (\<bar>x\<bar> < 10 ^ 21 \<longrightarrow>
                             (\<exists>(n::int) y. v = Fin y \<and> \<bar>of_int n / 100 - x\<bar> \<le> 1 / 200
                                  \<and> nearestDouble y (of_int n / 100)))
                        \<and> (10 ^ 21 \<le> \<bar>x\<bar> \<longrightarrow> v = Fin x))))
       \<and> (price r = None \<longrightarrow> pricePerKg r = None)
       \<and> normalize_raw id example_priced =
           Inr \<lparr> product_field = Str [], size_field = Str ''2kg'', price = Some (Fin 10),
                 pricePerKg = Some (Fin 5), url = Str [], id_field = Str [] \<rparr>"
proof -
  from assms have n: "normalize_obj (cc raw) = Inr r" by (simp add: normalize_raw_def)
  from normalize_size_string[OF n] obtain s where s: "size_field r = Str s" ..
  note ppk = normalize_pricePerKg(1)[OF n s]
  have c: "price r = None \<longrightarrow> pricePerKg r = None"
    by (simp add: ppk)
  have b: "\<exists>p s kg. price r = Some (Fin p) \<and> p \<noteq> 0 \<and> size_field r = Str s
                 \<and> sizeToKg s = Some kg \<and> truthy_num kg
                 \<and> v = toFixed2 (jdiv (Fin p) kg)
                 \<and> (\<forall>k x. kg = Fin k \<and> jdiv (Fin p) kg = Fin x \<longrightarrow>
                        nearestDouble x (p / k)
                        \<and> (\<bar>x\<bar> < 10 ^ 21 \<longrightarrow>
                             (\<exists>(n::int) y. v = Fin y \<and> \<bar>of_int n / 100 - x\<bar> \<le> 1 / 200
                                  \<and> nearestDouble y (of_int n / 100)))
                        \<and> (10 ^ 21 \<le> \<bar>x\<bar> \<longrightarrow> v = Fin x))"
    if v: "pricePerKg r = Some v" for v
  proof -
    have tk: "truthy_opt (sizeToKg s)"
      using v ppk by (cases "truthy_opt (sizeToKg s)") simp_all
    have tp: "truthy_opt (price r)"
      using v ppk by (cases "truthy_opt (price r)") simp_all
    from truthy_kg[OF tk] obtain kg where k: "sizeToKg s = Some kg" "truthy_num kg" by blast
    from truthy_price[OF n tp] obtain p where p: "price r = Some (Fin p)" "p \<noteq> 0" by blast
    have "pricePerKg r = Some (toFixed2 (jdiv (Fin p) kg))"
      using tk tp by (simp add: ppk k p)
    with v have e: "v = toFixed2 (jdiv (Fin p) kg)" by simp
    have d: "nearestDouble x (p / k)
             \<and> (\<bar>x\<bar> < 10 ^ 21 \<longrightarrow>
                   (\<exists>(n::int) y. v = Fin y \<and> \<bar>of_int n / 100 - x\<bar> \<le> 1 / 200
                        \<and> nearestDouble y (of_int n / 100)))
             \<and> (10 ^ 21 \<le> \<bar>x\<bar> \<longrightarrow> v = Fin x)"
      if h: "kg = Fin k \<and> jdiv (Fin p) kg = Fin x" for k x
    proof -
      from h have kk: "kg = Fin k" and q0: "jdiv (Fin p) kg = Fin x" by blast+
      from kk k(2) have k0: "k \<noteq> 0" by simp
      from q0 have q: "jdiv (Fin p) (Fin k) = Fin x" unfolding kk .
      have d1: "nearestDouble x (p / k)" by (rule jdiv_nearest[OF k0 q])
      from q0 e have ev: "v = toFixed2 (Fin x)" by simp
      have d2: "\<bar>x\<bar> < 10 ^ 21 \<longrightarrow>
                   (\<exists>(n::int) y. v = Fin y \<and> \<bar>of_int n / 100 - x\<bar> \<le> 1 / 200
                        \<and> nearestDouble y (of_int n / 100))"
        unfolding ev using toFixed2_rounds[of x] by blast
      have d3: "10 ^ 21 \<le> \<bar>x\<bar> \<longrightarrow> v = Fin x"
        unfolding ev by simp
      from d1 d2 d3 show ?thesis by (intro conjI)
    qed
    from p s k e d show ?thesis by blast
  qed
  have a: "pricePerKg r \<noteq> None \<longrightarrow>
            price r \<noteq> None \<and> (\<exists>s kg. size_field r = Str s \<and> sizeToKg s = Some kg)"
  proof
    assume "pricePerKg r \<noteq> None"
    then obtain v where "pricePerKg r = Some v" by blast
    from b[OF this] show "price r \<noteq> None \<and> (\<exists>s kg. size_field r = Str s \<and> sizeToKg s = Some kg)"
      by blast
  qed
  from a b c normalize_example_priced show ?thesis by blast
qed

theorem pricePerKg_invariant_witness:
  "normalize_raw id example_rounding =
     Inr \<lparr> product_field = Str [], size_field = Str ''400g'',
           price = Some (Fin (1131529406376837 / 562949953421312)),
           pricePerKg = Some (Fin (1413004383087493 / 281474976710656)),
           url = Str [], id_field = Str [] \<rparr>
   \<and> (\<exists>p s kg. Some (Fin (1131529406376837 / 562949953421312)) = Some (Fin p) \<and> p \<noteq> 0
          \<and> Str ''400g'' = Str s \<and> sizeToKg s = Some kg \<and> truthy_num kg
          \<and> Fin (1413004383087493 / 281474976710656) = toFixed2 (jdiv (Fin p) kg))"
proof -
  let ?r = "\<lparr> product_field = Str [], size_field = Str ''400g'',
           price = Some (Fin (1131529406376837 / 562949953421312)),
           pricePerKg = Some (Fin (1413004383087493 / 281474976710656)),
           url = Str [], id_field = Str [] \<rparr>"
  have h: "normalize_raw id example_rounding = Inr ?r"
    by (rule normalize_example_rounding)
  have v: "pricePerKg ?r = Some (Fin (1413004383087493 / 281474976710656))" by simp
  from pricePerKg_invariant [OF h] v
  have "\<exists>p s kg. price ?r = Some (Fin p) \<and> p \<noteq> 0 \<and> size_field ?r = Str s
          \<and> sizeToKg s = Some kg \<and> truthy_num kg
          \<and> Fin (1413004383087493 / 281474976710656) = toFixed2 (jdiv (Fin p) kg)"
    by blast
  hence "\<exists>p s kg. Some (Fin (1131529406376837 / 562949953421312)) = Some (Fin p) \<and> p \<noteq> 0
          \<and> Str ''400g'' = Str s \<and> sizeToKg s = Some kg \<and> truthy_num kg
          \<and> Fin (1413004383087493 / 281474976710656) = toFixed2 (jdiv (Fin p) kg)"
    by simp
  with h show ?thesis by (rule conjI)
qed
text \<open>
  C9. When the coerced price is 0, or the size string parses to a kilogram equivalent of
  0, the record has \<open>pricePerKg\<close> \<open>null\<close>, although the price is not \<open>null\<close> and the size
  parsed: both operands of the division are tested for truthiness first, so nothing is
  divided by a kilogram equivalent of zero.
\<close>

theorem zero_operand_pricePerKg_null:
  assumes "normalize_raw cc raw = Inr r"
      and "price r = Some (Fin 0) \<or> (\<exists>s. size_field r = Str s \<and> sizeToKg s = Some (Fin 0))"
  shows "pricePerKg r = None"
proof -
  from assms(1) have n: "normalize_obj (cc raw) = Inr r" by (simp add: normalize_raw_def)
  from normalize_size_string[OF n] obtain s where s: "size_field r = Str s" ..
  note ppk = normalize_pricePerKg(1)[OF n s]
  from assms(2) s have "\<not> truthy_opt (price r) \<or> \<not> truthy_opt (sizeToKg s)"
    by auto
  with ppk show ?thesis by auto
qed

lemma normalize_example_free:
  "normalize_raw id example_free =
     Inr \<lparr> product_field = Str [], size_field = Str ''1kg'', price = Some (Fin 0),
           pricePerKg = None, url = Str [], id_field = Str [] \<rparr>"
  by code_simp

lemma normalize_example_empty_pack:
  "normalize_raw id example_empty_pack =
     Inr \<lparr> product_field = Str [], size_field = Str ''0g'', price = Some (Fin 5),
           pricePerKg = None, url = Str [], id_field = Str [] \<rparr>"
  by code_simp

lemma sizeToKg_zero_grams: "sizeToKg ''0g'' = Some (Fin 0)"
  by code_simp

theorem zero_operand_pricePerKg_null_witness:
  "price \<lparr> product_field = Str [], size_field = Str ''1kg'', price = Some (Fin 0),
           pricePerKg = None, url = Str [], id_field = Str [] \<rparr> = Some (Fin 0)
   \<and> pricePerKg \<lparr> product_field = Str [], size_field = Str ''1kg'', price = Some (Fin 0),
           pricePerKg = None, url = Str [], id_field = Str [] \<rparr> = None
   \<and> sizeToKg ''0g'' = Some (Fin 0)
   \<and> pricePerKg \<lparr> product_field = Str [], size_field = Str ''0g'', price = Some (Fin 5),
           pricePerKg = None, url = Str [], id_field = Str [] \<rparr> = None"
proof -
  let ?r1 = "\<lparr> product_field = Str [], size_field = Str ''1kg'', price = Some (Fin 0),
           pricePerKg = None, url = Str [], id_field = Str [] \<rparr>"
  let ?r2 = "\<lparr> product_field = Str [], size_field = Str ''0g'', price = Some (Fin 5),
           pricePerKg = None, url = Str [], id_field = Str [] \<rparr>"
  have p1: "price ?r1 = Some (Fin 0)" by simp
  hence a: "pricePerKg ?r1 = None"
    using zero_operand_pricePerKg_null [OF normalize_example_free] by blast
  have "size_field ?r2 = Str ''0g'' \<and> sizeToKg ''0g'' = Some (Fin 0)"
    using sizeToKg_zero_grams by simp
  hence b: "pricePerKg ?r2 = None"
    using zero_operand_pricePerKg_null [OF normalize_example_empty_pack] by blast
  from p1 a sizeToKg_zero_grams b show ?thesis by (intro conjI)
qed

lemma jor_chain3:
  "jor a (jor b (jor c (Str []))) = (case find truthy [a, b, c] of Some v \<Rightarrow> v | None \<Rightarrow> Str [])"
  by (simp add: jor_def)

lemma jor_chain2:
  "jor a (jor b (Str [])) = (case find truthy [a, b] of Some v \<Rightarrow> v | None \<Rightarrow> Str [])"
  by (simp add: jor_def)

lemma coalesce_chain3:
  "toNumber (coalesce a (coalesce b c)) =
     (case find (\<lambda>v. v \<noteq> Undefined \<and> v \<noteq> Null) [a, b, c] of
        Some v \<Rightarrow> toNumber v | None \<Rightarrow> None)"
  by (auto simp: coalesce_def)

lemma normalize_fields:
  assumes "normalize_obj obj = Inr r"
  shows "product_field r = jor (getProp obj ''productName'') (jor (getProp obj ''name'') (Str []))"
    and "size_field r = jor (getProp obj ''productSize'')
                          (jor (getProp obj ''packageSize'') (jor (getProp obj ''size'') (Str [])))"
    and "price r = toNumber (coalesce (getProp obj ''currentPrice'')
                              (coalesce (getProp obj ''price'') (getProp obj ''Price'')))"
    and "url r = jor (getProp obj ''productUrl'')
                   (jor (getProp obj ''url'') (jor (getProp obj ''link'') (Str [])))"
    and "id_field r = jor (getProp obj ''productId'')
                        (jor (getProp obj ''id'') (jor (getProp obj ''sku'') (Str [])))"
  using assms by (auto simp: normalize_obj_def Let_def split: sum.splits)

lemma sizeToKg_empty: "sizeToKg [] = None"
  by code_simp

lemma normalize_missing:
  assumes "\<forall>k \<in> set [''productName'', ''name'', ''productSize'', ''packageSize'', ''size'',
                       ''currentPrice'', ''price'', ''Price'', ''productUrl'', ''url'', ''link'',
                       ''productId'', ''id'', ''sku'']. obj k = None"
  shows "normalize_obj obj =
           Inr \<lparr> product_field = Str [], size_field = Str [], price = None,
                 pricePerKg = None, url = Str [], id_field = Str [] \<rparr>"
proof -
  from assms have g: "getProp obj ''productName'' = Undefined" "getProp obj ''name'' = Undefined"
    "getProp obj ''productSize'' = Undefined" "getProp obj ''packageSize'' = Undefined"
    "getProp obj ''size'' = Undefined" "getProp obj ''currentPrice'' = Undefined"
    "getProp obj ''price'' = Undefined" "getProp obj ''Price'' = Undefined"
    "getProp obj ''productUrl'' = Undefined" "getProp obj ''url'' = Undefined"
    "getProp obj ''link'' = Undefined" "getProp obj ''productId'' = Undefined"
    "getProp obj ''id'' = Undefined" "getProp obj ''sku'' = Undefined"
    by (simp_all add: getProp_def)
  show ?thesis
    by (simp add: normalize_obj_def Let_def g jor_def coalesce_def sizeToKg_empty)
qed

lemma example_ids_normalized:
  "normalize_raw id example_ids =
     Inr \<lparr> product_field = Str [], size_field = Str [], price = None,
           pricePerKg = None, url = Str [], id_field = Str ''A1'' \<rparr>"
  by code_simp

lemma example_ids_first_present:
  "firstPresent example_ids [''productId'', ''id'', ''sku''] = Some (Num (Fin 0))"
  by (simp add: firstPresent_def example_ids_def)

text \<open>
  C7, as stated, fails: with \<open>productId\<close> present and equal to 0 and \<open>id\<close> equal to
  \<open>A1\<close>, the first value present among \<open>productId\<close>, \<open>id\<close>, \<open>sku\<close> is 0, and the
  record has the id \<open>A1\<close>.
\<close>

theorem first_present_counterexample:
  "normalize_raw id example_ids =
     Inr \<lparr> product_field = Str [], size_field = Str [], price = None,
           pricePerKg = None, url = Str [], id_field = Str ''A1'' \<rparr>
   \<and> firstPresent (id example_ids) [''productId'', ''id'', ''sku''] = Some (Num (Fin 0))"
  using example_ids_normalized example_ids_first_present by simp

text \<open>
  C7, amended. For every raw record the normalizer probes the candidate names of each
  attribute in order: the name, the size text, the link and the id take the first value
  that is truthy (\<open>||\<close>), the raw price the first value that is neither missing nor
  \<open>null\<close> (\<open>??\<close>), then coerced by \<open>toNumber\<close>. A record whose candidates are all
  missing is still produced, with the name, size, link and id empty strings and the prices
  \<open>null\<close>.
\<close>

theorem normalize_candidates:
  "(\<forall>r. normalize_raw cc raw = Inr r \<longrightarrow>
      product_field r =
        (case firstTruthy (cc raw) [''productName'', ''name''] of Some v \<Rightarrow> v | None \<Rightarrow> Str [])
      \<and> size_field r =
        (case firstTruthy (cc raw) [''productSize'', ''packageSize'', ''size''] of
           Some v \<Rightarrow> v | None \<Rightarrow> Str [])
      \<and> price r =
        (case firstNonNull (cc raw) [''currentPrice'', ''price'', ''Price''] of
           Some v \<Rightarrow> toNumber v | None \<Rightarrow> None)
      \<and> url r =
        (case firstTruthy (cc raw) [''productUrl'', ''url'', ''link''] of
           Some v \<Rightarrow> v | None \<Rightarrow> Str [])
      \<and> id_field r =
        (case firstTruthy (cc raw) [''productId'', ''id'', ''sku''] of
           Some v \<Rightarrow> v | None \<Rightarrow> Str []))
   \<and> ((\<forall>k \<in> set [''productName'', ''name'', ''productSize'', ''packageSize'', ''size'',
                    ''currentPrice'', ''price'', ''Price'', ''productUrl'', ''url'', ''link'',
                    ''productId'', ''id'', ''sku'']. cc raw k = None) \<longrightarrow>
        normalize_raw cc raw =
          Inr \<lparr> product_field = Str [], size_field = Str [], price = None,
                pricePerKg = None, url = Str [], id_field = Str [] \<rparr>)"
proof (intro conjI allI impI)
  fix r assume "normalize_raw cc raw = Inr r"
  hence n: "normalize_obj (cc raw) = Inr r" by (simp add: normalize_raw_def)
  show "product_field r =
        (case firstTruthy (cc raw) [''productName'', ''name''] of Some v \<Rightarrow> v | None \<Rightarrow> Str [])"
    by (simp only: normalize_fields(1)[OF n] jor_chain2 firstTruthy_def list.map)
  show "size_field r =
        (case firstTruthy (cc raw) [''productSize'', ''packageSize'', ''size''] of
           Some v \<Rightarrow> v | None \<Rightarrow> Str [])"
    by (simp only: normalize_fields(2)[OF n] jor_chain3 firstTruthy_def list.map)
  show "price r =
        (case firstNonNull (cc raw) [''currentPrice'', ''price'', ''Price''] of
           Some v \<Rightarrow> toNumber v | None \<Rightarrow> None)"
    by (simp only: normalize_fields(3)[OF n] coalesce_chain3 firstNonNull_def list.map)
  show "url r =
        (case firstTruthy (cc raw) [''productUrl'', ''url'', ''link''] of
           Some v \<Rightarrow> v | None \<Rightarrow> Str [])"
    by (simp only: normalize_fields(4)[OF n] jor_chain3 firstTruthy_def list.map)
  show "id_field r =
        (case firstTruthy (cc raw) [''productId'', ''id'', ''sku''] of
           Some v \<Rightarrow> v | None \<Rightarrow> Str [])"
    by (simp only: normalize_fields(5)[OF n] jor_chain3 firstTruthy_def list.map)
next
  assume "\<forall>k \<in> set [''productName'', ''name'', ''productSize'', ''packageSize'', ''size'',
                    ''currentPrice'', ''price'', ''Price'', ''productUrl'', ''url'', ''link'',
                    ''productId'', ''id'', ''sku'']. cc raw k = None"
  from normalize_missing[OF this]
  show "normalize_raw cc raw =
          Inr \<lparr> product_field = Str [], size_field = Str [], price = None,
                pricePerKg = None, url = Str [], id_field = Str [] \<rparr>"
    by (simp only: normalize_raw_def)
qed

theorem normalize_candidates_witness:
  "id_field \<lparr> product_field = Str [], size_field = Str [], price = None,
           pricePerKg = None, url = Str [], id_field = Str ''A1'' \<rparr>
     = (case firstTruthy (id example_ids) [''productId'', ''id'', ''sku''] of
          Some v \<Rightarrow> v | None \<Rightarrow> Str [])
   \<and> firstTruthy (id example_ids) [''productId'', ''id'', ''sku''] = Some (Str ''A1'')"
proof -
  have a: "firstTruthy (id example_ids) [''productId'', ''id'', ''sku''] = Some (Str ''A1'')"
    by (simp add: firstTruthy_def example_ids_def getProp_def)
  from normalize_candidates [of id example_ids] example_ids_normalized
  have "id_field \<lparr> product_field = Str [], size_field = Str [], price = None,
           pricePerKg = None, url = Str [], id_field = Str ''A1'' \<rparr>
     = (case firstTruthy (id example_ids) [''productId'', ''id'', ''sku''] of
          Some v \<Rightarrow> v | None \<Rightarrow> Str [])"
    by blast
  with a show ?thesis by (rule conjI[rotated])
qed

section \<open>The provider client and the cache\<close>

lemma getApiInfo_found:
  "(\<exists>a. getApiInfo store = Inr (Some a)) \<longleftrightarrow>
     (\<exists>s. store = QStr s \<and> (toLowerCase s = ''coles'' \<or> toLowerCase s = ''woolworths''))"
  by (cases store) (auto simp: getApiInfo_def Let_def toLowerCase_def)

lemma getApiInfo_coles:
  "getApiInfo (QStr ''coles'') =
     Inr (Some \<lparr> host = ''coles-product-price-api.p.rapidapi.com'',
                  path = ''/coles/product-search'' \<rparr>)"
  by (simp add: getApiInfo_def Let_def toLowerCase_def lowerChar_def)

lemma start_coles:
  assumes "ensureKey e = None"
  shows "callStoreSearch_start e (QStr ''coles'') q 1 15 w =
           (case getCache (cacheKey (QStr ''coles'') q 1 15) (clock w) (cache w) of
              (Some v, c) \<Rightarrow> (Settled (Inr v), w\<lparr>cache := c\<rparr>)
            | (None, c) \<Rightarrow>
                (Awaiting (cacheKey (QStr ''coles'') q 1 15)
                   (fst (axios_get e (calls w)
                      ''https://coles-product-price-api.p.rapidapi.com/coles/product-search'' q 1 15))
                   (snd (axios_get e (calls w)
                      ''https://coles-product-price-api.p.rapidapi.com/coles/product-search'' q 1 15)),
                 w\<lparr>cache := c, calls := calls w + 1\<rparr>))"
  using assms
  by (simp add: callStoreSearch_start_def getApiInfo_coles split: prod.splits option.splits)

lemma ensureKey_example: "ensureKey example_env = None"
  by (simp add: ensureKey_def example_env_def)

lemma callStoreSearch_miss:
  assumes "ensureKey e = None" and "getApiInfo store = Inr (Some a)"
      and "cache w (cacheKey store q page sz) = None"
      and "axios_get e (calls w) (''https://'' @ host a @ path a) q page sz = (d, Inr results)"
      and "normalize_all (camelCase e) (case results of None \<Rightarrow> [] | Some rs \<Rightarrow> rs) = Inr out"
  shows "callStoreSearch e store q page sz w =
           (Inr out, w\<lparr>cache := putCache (cacheKey store q page sz) out 45000 (clock w + d) (cache w),
                       clock := clock w + d, calls := calls w + 1\<rparr>)"
  using assms
  by (simp add: callStoreSearch_def callStoreSearch_start_def getCache_def)

lemma example_call:
  "callStoreSearch example_env (QStr ''coles'') (QStr ''oreo'') 1 15 example_world =
     (Inr [\<lparr> product_field = Str [], size_field = Str ''2kg'',
             price = Some (Fin 10), pricePerKg = Some (Fin 5),
             url = Str [], id_field = Str [] \<rparr>],
      \<lparr> cache = putCache (cacheKey (QStr ''coles'') (QStr ''oreo'') 1 15)
                  [\<lparr> product_field = Str [], size_field = Str ''2kg'',
                     price = Some (Fin 10), pricePerKg = Some (Fin 5),
                     url = Str [], id_field = Str [] \<rparr>] 45000 1120 Map.empty,
        clock = 1120, calls = 1 \<rparr>)"
proof -
  have n: "normalize_all (camelCase example_env) (case Some [example_priced] of None \<Rightarrow> [] | Some rs \<Rightarrow> rs)
             = Inr [\<lparr> product_field = Str [], size_field = Str ''2kg'',
                          price = Some (Fin 10), pricePerKg = Some (Fin 5),
                          url = Str [], id_field = Str [] \<rparr>]"
    by (simp add: example_env_def normalize_example_priced)
  have x: "axios_get example_env (calls example_world)
             (''https://'' @ host \<lparr> host = ''coles-product-price-api.p.rapidapi.com'',
                  path = ''/coles/product-search'' \<rparr> @ path \<lparr> host = ''coles-product-price-api.p.rapidapi.com'',
                  path = ''/coles/product-search'' \<rparr>) (QStr ''oreo'') 1 15
           = (120, Inr (Some [example_priced]))"
    by (simp add: example_env_def)
  have c: "cache example_world (cacheKey (QStr ''coles'') (QStr ''oreo'') 1 15) = None"
    by (simp add: example_world_def)
  from callStoreSearch_miss[OF ensureKey_example getApiInfo_coles c x n]
  show ?thesis
    by (simp add: example_world_def)
qed

lemma example_search:
  "fst (search_handler example_env (QStr ''coles'') (QStr ''oreo'') example_world) =
     (200, SearchBody [\<lparr> product_field = Str [], size_field = Str ''2kg'',
                          price = Some (Fin 10), pricePerKg = Some (Fin 5),
                          url = Str [], id_field = Str [] \<rparr>])"
  "calls (snd (search_handler example_env (QStr ''coles'') (QStr ''oreo'') example_world)) = 1"
  by (simp_all add: search_handler_def example_call del: One_nat_def)

text \<open>
  C10. A \<open>GET /search\<close> request without a \<open>store\<close> parameter is handled exactly as
  one with \<open>store=coles\<close>: with a non-empty \<open>q\<close> it is the search of the coles
  provider that is answered (from the cache, or by a network call to the coles address),
  not a rejection for a missing store. The provider lookup succeeds exactly for the
  strings that are \<open>coles\<close> or \<open>woolworths\<close> up to case.
\<close>

theorem search_default_store:
  "search_handler e QAbsent q w = search_handler e (QStr ''coles'') q w
   \<and> (truthy_q q \<longrightarrow>
        search_handler e QAbsent q w =
          (case callStoreSearch e (QStr ''coles'') q 1 15 w of
             (Inl err, w') \<Rightarrow> (serverError err, w')
           | (Inr list, w') \<Rightarrow> ((200, SearchBody list), w')))
   \<and> getApiInfo (QStr ''coles'') =
        Inr (Some \<lparr> host = ''coles-product-price-api.p.rapidapi.com'',
                     path = ''/coles/product-search'' \<rparr>)
   \<and> (ensureKey e = None \<longrightarrow>
        callStoreSearch_start e (QStr ''coles'') q 1 15 w =
           (case getCache (cacheKey (QStr ''coles'') q 1 15) (clock w) (cache w) of
              (Some v, c) \<Rightarrow> (Settled (Inr v), w\<lparr>cache := c\<rparr>)
            | (None, c) \<Rightarrow>
                (Awaiting (cacheKey (QStr ''coles'') q 1 15)
                   (fst (axios_get e (calls w)
                      ''https://coles-product-price-api.p.rapidapi.com/coles/product-search'' q 1 15))
                   (snd (axios_get e (calls w)
                      ''https://coles-product-price-api.p.rapidapi.com/coles/product-search'' q 1 15)),
                 w\<lparr>cache := c, calls := calls w + 1\<rparr>)))
   \<and> ((\<exists>a. getApiInfo store = Inr (Some a)) \<longleftrightarrow>
        (\<exists>s. store = QStr s \<and> (toLowerCase s = ''coles'' \<or> toLowerCase s = ''woolworths'')))"
proof -
  have a: "search_handler e QAbsent q w = search_handler e (QStr ''coles'') q w"
    by (simp add: search_handler_def)
  have b: "truthy_q q \<longrightarrow>
        search_handler e QAbsent q w =
          (case callStoreSearch e (QStr ''coles'') q 1 15 w of
             (Inl err, w') \<Rightarrow> (serverError err, w')
           | (Inr list, w') \<Rightarrow> ((200, SearchBody list), w'))"
    by (simp add: search_handler_def)
  from a b getApiInfo_coles start_coles getApiInfo_found show ?thesis by blast
qed


theorem search_default_store_witness:
  "fst (search_handler example_env QAbsent (QStr ''oreo'') example_world) =
     (200, SearchBody [\<lparr> product_field = Str [], size_field = Str ''2kg'',
                          price = Some (Fin 10), pricePerKg = Some (Fin 5),
                          url = Str [], id_field = Str [] \<rparr>])
   \<and> calls (snd (search_handler example_env QAbsent (QStr ''oreo'') example_world)) = 1
   \<and> (\<exists>a. getApiInfo (QStr ''COLES'') = Inr (Some a))"
proof -
  note t = search_default_store [of example_env "QStr ''oreo''" example_world "QStr ''COLES''"]
  from t have eq: "search_handler example_env QAbsent (QStr ''oreo'') example_world
                   = search_handler example_env (QStr ''coles'') (QStr ''oreo'') example_world"
    by (rule conjunct1)
  have lc: "toLowerCase ''COLES'' = ''coles''" by code_simp
  from t have "(\<exists>a. getApiInfo (QStr ''COLES'') = Inr (Some a)) \<longleftrightarrow>
        (\<exists>s. QStr ''COLES'' = QStr s \<and> (toLowerCase s = ''coles'' \<or> toLowerCase s = ''woolworths''))"
    by blast
  with lc have f: "\<exists>a. getApiInfo (QStr ''COLES'') = Inr (Some a)" by blast
  show ?thesis
    by (intro conjI) (simp_all add: eq example_search f)
qed

lemma getCache_fresh:
  assumes "now \<le> t + ttl"
  shows "getCache k now (putCache k v ttl t c) = (Some v, putCache k v ttl t c)"
  using assms by (simp add: getCache_def putCache_def)

lemma callStoreSearch_network:
  assumes "callStoreSearch e store q page sz w = (Inr out, w1)" and "calls w1 = calls w + 1"
  shows "\<exists>a c d. ensureKey e = None \<and> getApiInfo store = Inr (Some a)
           \<and> w1 = \<lparr> cache = putCache (cacheKey store q page sz) out 45000 (clock w + d) c,
                   clock = clock w + d, calls = calls w + 1 \<rparr>"
  using assms
  by (cases w)
     (auto simp: callStoreSearch_def callStoreSearch_start_def Let_def
           split: option.splits sum.splits prod.splits if_splits
           elim!: callStoreSearch_finish.elims)

lemma callStoreSearch_cached:
  assumes "ensureKey e = None" and "getApiInfo store = Inr (Some a)"
      and "cache w (cacheKey store q page sz) = Some hit" and "clock w \<le> until hit"
  shows "callStoreSearch e store q page sz w = (Inr (value_field hit), w)"
  using assms
  by (simp add: callStoreSearch_def callStoreSearch_start_def getCache_def)


text \<open>
  C5. A \<open>get\<close> on a key whose expiry time has passed deletes the entry and returns
  \<open>null\<close>, and the entry is absent afterwards; a \<open>get\<close> within the time to live
  returns the value that was put. So when a search has gone to the network and returned a
  list, the same search made again within 45000 ms returns the same list and leaves the
  number of network calls unchanged.
\<close>

theorem cache_semantics:
  "(\<forall>hit. c k = Some hit \<and> until hit < now \<longrightarrow>
       getCache k now c = (None, c(k := None))
       \<and> snd (getCache k now c) k = None
       \<and> getCache k now' (snd (getCache k now c)) = (None, snd (getCache k now c)))
   \<and> (now \<le> t + ttl \<longrightarrow>
        getCache k now (putCache k v ttl t c) = (Some v, putCache k v ttl t c))
   \<and> (callStoreSearch e store q page sz w = (Inr out, w1) \<and> calls w1 = calls w + 1
        \<and> t' \<le> clock w1 + 45000 \<longrightarrow>
        callStoreSearch e store q page sz (w1\<lparr>clock := t'\<rparr>) = (Inr out, w1\<lparr>clock := t'\<rparr>))"
proof (intro conjI allI impI)
  fix hit assume "c k = Some hit \<and> until hit < now"
  hence h: "c k = Some hit" "until hit < now" by simp_all
  show "getCache k now c = (None, c(k := None))"
    and "snd (getCache k now c) k = None"
    and "getCache k now' (snd (getCache k now c)) = (None, snd (getCache k now c))"
    by (simp_all add: getCache_def h)
next
  assume "now \<le> t + ttl"
  then show "getCache k now (putCache k v ttl t c) = (Some v, putCache k v ttl t c)"
    by (rule getCache_fresh)
next
  assume a: "callStoreSearch e store q page sz w = (Inr out, w1) \<and> calls w1 = calls w + 1
        \<and> t' \<le> clock w1 + 45000"
  with callStoreSearch_network[of e store q page sz w out w1]
  obtain a' c' d where k: "ensureKey e = None" and g: "getApiInfo store = Inr (Some a')"
    and w1: "w1 = \<lparr> cache = putCache (cacheKey store q page sz) out 45000 (clock w + d) c',
                   clock = clock w + d, calls = calls w + 1 \<rparr>"
    by blast
  let ?hit = "\<lparr> until = clock w + d + 45000, value_field = out \<rparr>"
  have h: "cache (w1\<lparr>clock := t'\<rparr>) (cacheKey store q page sz) = Some ?hit"
    by (simp add: w1 putCache_def)
  have f: "clock (w1\<lparr>clock := t'\<rparr>) \<le> until ?hit"
    using a by (simp add: w1)
  from callStoreSearch_cached[OF k g h f]
  show "callStoreSearch e store q page sz (w1\<lparr>clock := t'\<rparr>) = (Inr out, w1\<lparr>clock := t'\<rparr>)"
    by simp
qed

theorem cache_semantics_witness:
  "getCache ''k'' 46121 [''k'' \<mapsto> \<lparr> until = 46120, value_field = [] \<rparr>]
     = (None, [''k'' \<mapsto> \<lparr> until = 46120, value_field = [] \<rparr>](''k'' := None))
   \<and> getCache ''k'' 46120 (putCache ''k'' [] 45000 1120 Map.empty)
     = (Some [], putCache ''k'' [] 45000 1120 Map.empty)
   \<and> callStoreSearch example_env (QStr ''coles'') (QStr ''oreo'') 1 15
     (\<lparr> cache = putCache (cacheKey (QStr ''coles'') (QStr ''oreo'') 1 15)
                  [\<lparr> product_field = Str [], size_field = Str ''2kg'',
                     price = Some (Fin 10), pricePerKg = Some (Fin 5),
                     url = Str [], id_field = Str [] \<rparr>] 45000 1120 Map.empty,
        clock = 1120, calls = 1 \<rparr>\<lparr>clock := 46120\<rparr>)
   = (Inr [\<lparr> product_field = Str [], size_field = Str ''2kg'',
             price = Some (Fin 10), pricePerKg = Some (Fin 5),
             url = Str [], id_field = Str [] \<rparr>],
      \<lparr> cache = putCache (cacheKey (QStr ''coles'') (QStr ''oreo'') 1 15)
                  [\<lparr> product_field = Str [], size_field = Str ''2kg'',
                     price = Some (Fin 10), pricePerKg = Some (Fin 5),
                     url = Str [], id_field = Str [] \<rparr>] 45000 1120 Map.empty,
        clock = 1120, calls = 1 \<rparr>\<lparr>clock := 46120\<rparr>)"
proof -
  let ?out = "[\<lparr> product_field = Str [], size_field = Str ''2kg'',
             price = Some (Fin 10), pricePerKg = Some (Fin 5),
             url = Str [], id_field = Str [] \<rparr>]"
  let ?w1 = "\<lparr> cache = putCache (cacheKey (QStr ''coles'') (QStr ''oreo'') 1 15) ?out 45000 1120 Map.empty,
        clock = 1120, calls = 1 \<rparr>"
  let ?c = "[''k'' \<mapsto> \<lparr> until = 46120, value_field = [] \<rparr>]"
  note t = cache_semantics [where c = ?c and k = "''k''" and now = 46121 and e = example_env
      and store = "QStr ''coles''" and q = "QStr ''oreo''" and page = 1 and sz = 15
      and w = example_world and out = ?out and ?w1.0 = ?w1 and t' = 46120]
  have h: "?c ''k'' = Some \<lparr> until = 46120, value_field = [] \<rparr>
           \<and> until \<lparr> until = 46120, value_field = [] \<rparr> < (46121::nat)"
    by simp
  from t h have x: "getCache ''k'' 46121 ?c = (None, ?c(''k'' := None))"
    by blast
  have "(46120::nat) \<le> 1120 + 45000" by simp
  with cache_semantics [where now = 46120 and t = 1120 and ttl = 45000 and k = "''k''"
      and v = "[]" and c = Map.empty]
  have y: "getCache ''k'' 46120 (putCache ''k'' [] 45000 1120 Map.empty)
     = (Some [], putCache ''k'' [] 45000 1120 Map.empty)"
    by blast
  have a: "callStoreSearch example_env (QStr ''coles'') (QStr ''oreo'') 1 15 example_world = (Inr ?out, ?w1)"
    by (rule example_call)
  have b: "calls ?w1 = calls example_world + 1" by (simp add: example_world_def)
  have c: "(46120::nat) \<le> clock ?w1 + 45000" by simp
  from t a b c
  have z: "callStoreSearch example_env (QStr ''coles'') (QStr ''oreo'') 1 15 (?w1\<lparr>clock := 46120\<rparr>)
           = (Inr ?out, ?w1\<lparr>clock := 46120\<rparr>)"
    by blast
  from x y z show ?thesis by (intro conjI)
qed

section \<open>The comparison step\<close>

lemma firstMin_here: "\<forall>q\<in>set xs. k x \<le> k q \<Longrightarrow> firstMin k (x # xs) x"
  unfolding firstMin_def
  by (rule exI[of _ "[]"], rule exI[of _ xs]) simp

lemma firstMin_later:
  assumes "firstMin k xs r" and "k r < k x"
  shows "firstMin k (x # xs) r"
proof -
  from assms(1) obtain pre post where p: "xs = pre @ r # post"
    "\<forall>q\<in>set pre. k r < k q" "\<forall>q\<in>set post. k r \<le> k q"
    unfolding firstMin_def by blast
  show ?thesis
    unfolding firstMin_def
    by (rule exI[of _ "x # pre"], rule exI[of _ post]) (use p assms(2) in simp)
qed

lemma fold_first_min:
  fixes k :: "'a \<Rightarrow> rat" and st :: "'a option \<Rightarrow> 'a \<Rightarrow> 'a option"
  assumes st: "\<And>b p. P b \<Longrightarrow> P p \<Longrightarrow> st (Some b) p = (if k p < k b then Some p else Some b)"
      and "P b" and "\<forall>p\<in>set xs. P p"
  shows "\<exists>r. foldl st (Some b) xs = Some r \<and>
           ((r = b \<and> (\<forall>q\<in>set xs. k b \<le> k q)) \<or> (firstMin k xs r \<and> k r < k b))"
  using assms(2,3)
proof (induction xs arbitrary: b)
  case Nil
  then show ?case by simp
next
  case (Cons x xs)
  from Cons.prems have Px: "P x" and Pxs: "\<forall>p\<in>set xs. P p" by simp_all
  show ?case
  proof (cases "k x < k b")
    case True
    with st[OF Cons.prems(1) Px] have s: "foldl st (Some b) (x # xs) = foldl st (Some x) xs"
      by simp
    from Cons.IH[OF Px Pxs] obtain r where r: "foldl st (Some x) xs = Some r"
      and d: "(r = x \<and> (\<forall>q\<in>set xs. k x \<le> k q)) \<or> (firstMin k xs r \<and> k r < k x)"
      by blast
    from d have "firstMin k (x # xs) r \<and> k r < k b"
    proof
      assume "r = x \<and> (\<forall>q\<in>set xs. k x \<le> k q)"
      with True firstMin_here[of xs k x] show ?thesis by simp
    next
      assume "firstMin k xs r \<and> k r < k x"
      with True firstMin_later[of k xs r x] show ?thesis by simp
    qed
    with s r show ?thesis by simp
  next
    case False
    with st[OF Cons.prems(1) Px] have s: "foldl st (Some b) (x # xs) = foldl st (Some b) xs"
      by simp
    from Cons.IH[OF Cons.prems(1) Pxs] obtain r where r: "foldl st (Some b) xs = Some r"
      and d: "(r = b \<and> (\<forall>q\<in>set xs. k b \<le> k q)) \<or> (firstMin k xs r \<and> k r < k b)"
      by blast
    from d have "(r = b \<and> (\<forall>q\<in>set (x # xs). k b \<le> k q)) \<or> (firstMin k (x # xs) r \<and> k r < k b)"
    proof
      assume "r = b \<and> (\<forall>q\<in>set xs. k b \<le> k q)"
      with False show ?thesis by simp
    next
      assume a: "firstMin k xs r \<and> k r < k b"
      with False have "k r < k x" by simp
      with a firstMin_later[of k xs r x] show ?thesis by simp
    qed
    with s r show ?thesis by simp
  qed
qed

lemma fold_first_min_top:
  fixes k :: "'a \<Rightarrow> rat" and st :: "'a option \<Rightarrow> 'a \<Rightarrow> 'a option"
  assumes st: "\<And>b p. P b \<Longrightarrow> P p \<Longrightarrow> st (Some b) p = (if k p < k b then Some p else Some b)"
      and st0: "\<And>p. st None p = Some p"
      and P: "\<forall>p\<in>set xs. P p"
  shows "(foldl st None xs = None \<longleftrightarrow> xs = [])
       \<and> (\<forall>r. foldl st None xs = Some r \<longrightarrow> firstMin k xs r)"
proof (cases xs)
  case Nil
  then show ?thesis by simp
next
  case (Cons x ys)
  with P have Px: "P x" and Pys: "\<forall>p\<in>set ys. P p" by simp_all
  from fold_first_min[of P st k, OF st Px Pys] obtain r where r: "foldl st (Some x) ys = Some r"
    and d: "(r = x \<and> (\<forall>q\<in>set ys. k x \<le> k q)) \<or> (firstMin k ys r \<and> k r < k x)"
    by blast
  have f: "foldl st None xs = Some r" using Cons r st0 by simp
  from d have "firstMin k xs r"
  proof
    assume "r = x \<and> (\<forall>q\<in>set ys. k x \<le> k q)"
    with Cons firstMin_here[of ys k x] show ?thesis by simp
  next
    assume "firstMin k ys r \<and> k r < k x"
    with Cons firstMin_later[of k ys r x] show ?thesis by simp
  qed
  with f Cons show ?thesis by simp
qed

lemma stepItem_finite:
  assumes "\<exists>q. price b = Some (Fin q)" and "\<exists>q. price p = Some (Fin q)"
  shows "stepItem (Some b) p = (if ratOf (price p) < ratOf (price b) then Some p else Some b)"
  using assms by (auto simp: stepItem_def orInfinity_def ratOf_def)

lemma stepKg_finite:
  assumes "\<exists>q. pricePerKg b = Some (Fin q)" and "\<exists>q. pricePerKg p = Some (Fin q)"
  shows "stepKg (Some b) p = (if ratOf (pricePerKg p) < ratOf (pricePerKg b) then Some p else Some b)"
  using assms by (auto simp: stepKg_def ratOf_def)

lemma normalized_price:
  "normalized p \<Longrightarrow> price p \<noteq> None \<Longrightarrow> \<exists>q. price p = Some (Fin q)"
  by (cases "price p"; cases "the (price p)") (auto simp: normalized_def)

lemma normalized_pricePerKg:
  "normalized p \<Longrightarrow> pricePerKg p \<noteq> None \<Longrightarrow> \<exists>q. pricePerKg p = Some (Fin q)"
  by (cases "pricePerKg p"; cases "the (pricePerKg p)") (auto simp: normalized_def)


text \<open>
  The normalizer builds finite prices. A \<open>pricePerKg\<close> is a number and never \<open>NaN\<close>;
  it is finite unless the quotient of the price and the kilogram equivalent overflows.
\<close>

lemma normalize_raw_normalized:
  assumes "normalize_raw cc raw = Inr r"
      and "pricePerKg r \<noteq> Some PosInf" and "pricePerKg r \<noteq> Some NegInf"
  shows "normalized r"
proof -
  from assms(1) have n: "normalize_obj (cc raw) = Inr r" by (simp add: normalize_raw_def)
  from normalize_size_string[OF n] obtain s where s: "size_field r = Str s" ..
  note ppk = normalize_pricePerKg(1)[OF n s]
  from normalize_pricePerKg(2)[OF n s] obtain v where v: "price r = toNumber v" ..
  have a: "case price r of None \<Rightarrow> True | Some x \<Rightarrow> isFinite x"
    using toNumber_finite[of v] v by (cases "toNumber v") auto
  have b: "case pricePerKg r of None \<Rightarrow> True | Some x \<Rightarrow> isFinite x"
  proof (cases "truthy_opt (sizeToKg s) \<and> truthy_opt (price r)")
    case False
    with ppk show ?thesis by auto
  next
    case True
    with truthy_kg[of s] truthy_price[OF n] obtain kg p
      where k: "sizeToKg s = Some kg" "truthy_num kg" and p: "price r = Some (Fin p)" by blast
    from True have e: "pricePerKg r = Some (toFixed2 (jdiv (Fin p) kg))"
      by (simp add: ppk k p)
    from toFixed2_not_NaN[OF jdiv_not_NaN[OF k(2)]]
    have "toFixed2 (jdiv (Fin p) kg) \<noteq> NaN" .
    with assms(2,3) e show ?thesis
      by (cases "toFixed2 (jdiv (Fin p) kg)") simp_all
  qed
  from a b show ?thesis by (simp add: normalized_def)
qed

lemma normalize_all_normalized:
  assumes "normalize_all cc raws = Inr out"
      and "\<forall>p\<in>set out. pricePerKg p \<noteq> Some PosInf \<and> pricePerKg p \<noteq> Some NegInf"
  shows "\<forall>p\<in>set out. normalized p"
  using assms
proof (induction raws arbitrary: out)
  case Nil
  then show ?case by simp
next
  case (Cons raw raws)
  from Cons.prems(1) obtain p ps where p: "normalize_raw cc raw = Inr p"
    and ps: "normalize_all cc raws = Inr ps" and o: "out = p # ps"
    by (auto split: sum.splits)
  from Cons.prems(2) o have f: "pricePerKg p \<noteq> Some PosInf" "pricePerKg p \<noteq> Some NegInf"
    and g: "\<forall>p\<in>set ps. pricePerKg p \<noteq> Some PosInf \<and> pricePerKg p \<noteq> Some NegInf"
    by simp_all
  from normalize_raw_normalized[OF p f] Cons.IH[OF ps g] o show ?case by simp
qed

lemma normalize_all_members:
  "normalize_all cc raws = Inr out \<Longrightarrow>
     \<forall>r\<in>set out. \<exists>raw\<in>set raws. normalize_raw cc raw = Inr r"
proof (induction raws arbitrary: out)
  case Nil
  then show ?case by simp
next
  case (Cons raw raws)
  from Cons.prems obtain p ps where p: "normalize_raw cc raw = Inr p"
    and ps: "normalize_all cc raws = Inr ps" and o: "out = p # ps"
    by (auto split: sum.splits)
  from p Cons.IH[OF ps] o show ?case by auto
qed

lemma example_lists_normalized:
  "\<forall>p \<in> set ([example_a1, example_a2] @ [example_b1, example_b2]). normalized p"
  by (simp add: normalized_def example_a1_def example_a2_def example_b1_def example_b2_def)

lemma example_byItem:
  "byItem [example_a1, example_a2] [example_b1, example_b2] = Some example_b1"
  by (simp add: byItem_def allPriced_def stepItem_def orInfinity_def
        example_a1_def example_a2_def example_b1_def example_b2_def)

lemma example_byKg:
  "byKg [example_a1, example_a2] [example_b1, example_b2] = Some example_a2"
  by (simp add: byKg_def withKg_def allPriced_def stepKg_def
        example_a1_def example_a2_def example_b1_def example_b2_def)

text \<open>
  C3. The comparison step of \<open>/cheapest\<close> on two normalized lists: the lists are
  merged, the first provider first, and the records whose price is \<open>null\<close> dropped; the
  cheapest by item is the record of minimal price, and the cheapest by kilogram the record
  of minimal \<open>pricePerKg\<close> among those where it is not \<open>null\<close>; of several records with
  the minimal value the first of the merged list wins; a winner is \<open>null\<close> exactly when
  no record qualifies.
\<close>

theorem cheapest_comparison:
  assumes "\<forall>p \<in> set (coles @ woolworths). normalized p"
  shows "allPriced coles woolworths = filter (\<lambda>p. price p \<noteq> None) (coles @ woolworths)
       \<and> withKg coles woolworths = filter (\<lambda>p. pricePerKg p \<noteq> None) (allPriced coles woolworths)
       \<and> (byItem coles woolworths = None \<longleftrightarrow> allPriced coles woolworths = [])
       \<and> (\<forall>r. byItem coles woolworths = Some r \<longrightarrow>
             (\<exists>pre post. allPriced coles woolworths = pre @ r # post
                \<and> (\<forall>q\<in>set pre. ratOf (price r) < ratOf (price q))
                \<and> (\<forall>q\<in>set post. ratOf (price r) \<le> ratOf (price q))))
       \<and> (byKg coles woolworths = None \<longleftrightarrow> withKg coles woolworths = [])
       \<and> (\<forall>r. byKg coles woolworths = Some r \<longrightarrow>
             (\<exists>pre post. withKg coles woolworths = pre @ r # post
                \<and> (\<forall>q\<in>set pre. ratOf (pricePerKg r) < ratOf (pricePerKg q))
                \<and> (\<forall>q\<in>set post. ratOf (pricePerKg r) \<le> ratOf (pricePerKg q))))
       \<and> (\<forall>e q w w' a b.
             truthy_q q \<and> searchBoth e q w = (Inr (coles, woolworths), w')
             \<and> attribute (byItem coles woolworths) = Inr a
             \<and> attribute (byKg coles woolworths) = Inr b \<longrightarrow>
             cheapest_handler e q w = ((200, CheapestBody q a b), w'))"
proof -
  have P1: "\<forall>p\<in>set (allPriced coles woolworths). \<exists>q. price p = Some (Fin q)"
    using assms normalized_price by (auto simp: allPriced_def)
  have P2: "\<forall>p\<in>set (withKg coles woolworths). \<exists>q. pricePerKg p = Some (Fin q)"
    using assms normalized_pricePerKg by (auto simp: withKg_def allPriced_def)
  have s0: "\<And>p. stepItem None p = Some p" by (simp add: stepItem_def)
  have k0: "\<And>p. stepKg None p = Some p" by (simp add: stepKg_def)
  note i = fold_first_min_top[of "\<lambda>p. \<exists>q. price p = Some (Fin q)" stepItem
      "\<lambda>p. ratOf (price p)" "allPriced coles woolworths", OF stepItem_finite s0 P1]
  note j = fold_first_min_top[of "\<lambda>p. \<exists>q. pricePerKg p = Some (Fin q)" stepKg
      "\<lambda>p. ratOf (pricePerKg p)" "withKg coles woolworths", OF stepKg_finite k0 P2]
  have h: "\<forall>e q w w' a b.
             truthy_q q \<and> searchBoth e q w = (Inr (coles, woolworths), w')
             \<and> attribute (byItem coles woolworths) = Inr a
             \<and> attribute (byKg coles woolworths) = Inr b \<longrightarrow>
             cheapest_handler e q w = ((200, CheapestBody q a b), w')"
    by (simp add: cheapest_handler_def)
  have m: "allPriced coles woolworths = filter (\<lambda>p. price p \<noteq> None) (coles @ woolworths)"
          "withKg coles woolworths = filter (\<lambda>p. pricePerKg p \<noteq> None) (allPriced coles woolworths)"
    by (simp_all add: allPriced_def withKg_def)
  from i j have
    "(byItem coles woolworths = None \<longleftrightarrow> allPriced coles woolworths = [])
       \<and> (\<forall>r. byItem coles woolworths = Some r \<longrightarrow>
             firstMin (\<lambda>p. ratOf (price p)) (allPriced coles woolworths) r)
       \<and> (byKg coles woolworths = None \<longleftrightarrow> withKg coles woolworths = [])
       \<and> (\<forall>r. byKg coles woolworths = Some r \<longrightarrow>
             firstMin (\<lambda>p. ratOf (pricePerKg p)) (withKg coles woolworths) r)"
    unfolding byItem_def byKg_def by simp
  with m h show ?thesis
    unfolding firstMin_def by simp
qed

theorem cheapest_comparison_witness:
  "byItem [example_a1, example_a2] [example_b1, example_b2] = Some example_b1
   \<and> (\<exists>pre post. allPriced [example_a1, example_a2] [example_b1, example_b2]
                     = pre @ example_b1 # post
          \<and> (\<forall>q\<in>set pre. ratOf (price example_b1) < ratOf (price q))
          \<and> (\<forall>q\<in>set post. ratOf (price example_b1) \<le> ratOf (price q)))
   \<and> byKg [example_a1, example_a2] [example_b1, example_b2] = Some example_a2
   \<and> (\<exists>pre post. withKg [example_a1, example_a2] [example_b1, example_b2]
                     = pre @ example_a2 # post
          \<and> (\<forall>q\<in>set pre. ratOf (pricePerKg example_a2) < ratOf (pricePerKg q))
          \<and> (\<forall>q\<in>set post. ratOf (pricePerKg example_a2) \<le> ratOf (pricePerKg q)))"
proof -
  note t = cheapest_comparison [OF example_lists_normalized]
  from t example_byItem
  have a: "\<exists>pre post. allPriced [example_a1, example_a2] [example_b1, example_b2]
                     = pre @ example_b1 # post
          \<and> (\<forall>q\<in>set pre. ratOf (price example_b1) < ratOf (price q))
          \<and> (\<forall>q\<in>set post. ratOf (price example_b1) \<le> ratOf (price q))"
    by blast
  from t example_byKg
  have b: "\<exists>pre post. withKg [example_a1, example_a2] [example_b1, example_b2]
                     = pre @ example_a2 # post
          \<and> (\<forall>q\<in>set pre. ratOf (pricePerKg example_a2) < ratOf (pricePerKg q))
          \<and> (\<forall>q\<in>set post. ratOf (pricePerKg example_a2) \<le> ratOf (pricePerKg q))"
    by blast
  from example_byItem a example_byKg b show ?thesis by (intro conjI)
qed

section \<open>The batch route\<close>

lemma getApiInfo_woolworths:
  "getApiInfo (QStr ''woolworths'') =
     Inr (Some \<lparr> host = ''woolworths-products-api.p.rapidapi.com'',
                  path = ''/woolworths/product-search/'' \<rparr>)"
  by (simp add: getApiInfo_def Let_def toLowerCase_def lowerChar_def)

lemma bulk_loop_append:
  "bulk_loop e (pre @ rest) w =
     (case bulk_loop e pre w of
        (Inl err, w') \<Rightarrow> (Inl err, w')
      | (Inr out, w') \<Rightarrow>
          (case bulk_loop e rest w' of
             (Inl err, w'') \<Rightarrow> (Inl err, w'')
           | (Inr out', w'') \<Rightarrow> (Inr (out @ out'), w'')))"
  by (induction pre arbitrary: w) (auto split: prod.splits sum.splits)


lemma start_miss:
  assumes "ensureKey e = None" and "getApiInfo store = Inr (Some a)"
      and "cache w (cacheKey store q page sz) = None"
      and "axios_get e (calls w) (''https://'' @ host a @ path a) q page sz = (d, x)"
  shows "callStoreSearch_start e store q page sz w =
           (Awaiting (cacheKey store q page sz) d x, w\<lparr>calls := calls w + 1\<rparr>)"
  using assms by (simp add: callStoreSearch_start_def getCache_def)

lemma searchBoth_miss:
  assumes k: "ensureKey e = None"
      and c1: "cache w (cacheKey (QStr ''coles'') q 1 15) = None"
      and c2: "cache w (cacheKey (QStr ''woolworths'') q 1 15) = None"
      and x1: "axios_get e (calls w)
                 ''https://coles-product-price-api.p.rapidapi.com/coles/product-search'' q 1 15
               = (da, xa)"
      and x2: "axios_get e (calls w + 1)
                 ''https://woolworths-products-api.p.rapidapi.com/woolworths/product-search/'' q 1 15
               = (db, xb)"
  shows "searchBoth e q w =
     (case callStoreSearch_finish e (clock w)
             (Awaiting (cacheKey (QStr ''coles'') q 1 15) da xa) (w\<lparr>calls := calls w + 2\<rparr>) of
        (ra, w3) \<Rightarrow>
          (case callStoreSearch_finish e (clock w)
                  (Awaiting (cacheKey (QStr ''woolworths'') q 1 15) db xb) w3 of
             (rb, w4) \<Rightarrow>
               (case ra of
                  Inr a \<Rightarrow> (case rb of Inr b \<Rightarrow> Inr (a, b) | Inl eb \<Rightarrow> Inl eb)
                | Inl ea \<Rightarrow>
                    (case rb of Inr b \<Rightarrow> Inl ea
                     | Inl eb \<Rightarrow> Inl (if db < da then eb else ea)),
                w4\<lparr>clock := max (clock w + da) (clock w + db)\<rparr>)))"
proof -
  have s1: "callStoreSearch_start e (QStr ''coles'') q 1 15 w =
              (Awaiting (cacheKey (QStr ''coles'') q 1 15) da xa, w\<lparr>calls := calls w + 1\<rparr>)"
    using start_miss[OF k getApiInfo_coles c1] x1 by simp
  have s2: "callStoreSearch_start e (QStr ''woolworths'') q 1 15 (w\<lparr>calls := calls w + 1\<rparr>) =
              (Awaiting (cacheKey (QStr ''woolworths'') q 1 15) db xb, w\<lparr>calls := calls w + 2\<rparr>)"
    using start_miss[OF k getApiInfo_woolworths, of "w\<lparr>calls := calls w + 1\<rparr>" q 1 15 db xb] c2 x2
    by simp
  show ?thesis
    using s1 s2 by (simp add: searchBoth_def Let_def split: prod.splits sum.splits)
qed

lemma searchBoth_fail:
  assumes k: "ensureKey e = None"
      and c1: "cache w (cacheKey (QStr ''coles'') q 1 15) = None"
      and c2: "cache w (cacheKey (QStr ''woolworths'') q 1 15) = None"
      and x1: "axios_get e (calls w)
                 ''https://coles-product-price-api.p.rapidapi.com/coles/product-search'' q 1 15
               = (d, Inl m)"
      and x2: "axios_get e (calls w + 1)
                 ''https://woolworths-products-api.p.rapidapi.com/woolworths/product-search/'' q 1 15
               = (d, Inl m)"
  shows "searchBoth e q w = (Inl (AxiosError m), w\<lparr>calls := calls w + 2, clock := clock w + d\<rparr>)"
  by (simp add: searchBoth_miss[OF k c1 c2 x1 x2])

lemma searchBoth_ok:
  assumes k: "ensureKey e = None"
      and c1: "cache w (cacheKey (QStr ''coles'') q 1 15) = None"
      and c2: "cache w (cacheKey (QStr ''woolworths'') q 1 15) = None"
      and x1: "axios_get e (calls w)
                 ''https://coles-product-price-api.p.rapidapi.com/coles/product-search'' q 1 15
               = (d, Inr (Some ra))"
      and x2: "axios_get e (calls w + 1)
                 ''https://woolworths-products-api.p.rapidapi.com/woolworths/product-search/'' q 1 15
               = (d, Inr (Some rb))"
      and n1: "normalize_all (camelCase e) ra = Inr oa"
      and n2: "normalize_all (camelCase e) rb = Inr ob"
  shows "searchBoth e q w =
           (Inr (oa, ob),
            w\<lparr>calls := calls w + 2,
               cache := putCache (cacheKey (QStr ''woolworths'') q 1 15) ob 45000 (clock w + d)
                          (putCache (cacheKey (QStr ''coles'') q 1 15) oa 45000 (clock w + d) (cache w)),
               clock := clock w + d\<rparr>)"
  by (simp add: searchBoth_miss[OF k c1 c2 x1 x2] n1 n2)


lemma example_axios:
  "axios_get example_env n u (QStr ''Flour'') p s = (120, Inl ''Request failed with status code 500'')"
  "axios_get example_env n u (QStr ''Sugar'') p s = (120, Inr (Some [example_priced]))"
  "axios_get example_env n u (QStr ''Milk'') p s = (120, Inr (Some [example_priced]))"
  by (simp_all add: example_env_def)

lemma example_normalize_all:
  "normalize_all (camelCase example_env) [example_priced] = Inr [example_record]"
  by (simp add: normalize_example_priced example_env_def example_record_def)

lemma example_empty_cache: "cache example_world k = None"
  by (simp add: example_world_def)

lemma example_flour:
  "searchBoth example_env (QStr ''Flour'') example_world =
     (Inl (AxiosError ''Request failed with status code 500''),
      example_world\<lparr>calls := calls example_world + 2, clock := clock example_world + 120\<rparr>)"
  by (rule searchBoth_fail[OF ensureKey_example example_empty_cache example_empty_cache
        example_axios(1) example_axios(1)])

lemma example_sugar:
  "searchBoth example_env (QStr ''Sugar'') example_world =
     (Inr ([example_record], [example_record]),
      example_world\<lparr>calls := calls example_world + 2,
        cache := putCache (cacheKey (QStr ''woolworths'') (QStr ''Sugar'') 1 15) [example_record] 45000
                   (clock example_world + 120)
                   (putCache (cacheKey (QStr ''coles'') (QStr ''Sugar'') 1 15) [example_record] 45000
                      (clock example_world + 120) (cache example_world)),
        clock := clock example_world + 120\<rparr>)"
  by (rule searchBoth_ok[OF ensureKey_example example_empty_cache example_empty_cache
        example_axios(2) example_axios(2) example_normalize_all example_normalize_all])

lemma example_attribute:
  "attribute (bestPerKg [example_record] [example_record]) = Inr (Some (None, example_record))"
  by (simp add: bestPerKg_def stepKg_def guessStore_def jor_def toLowerCase_def example_record_def)

lemma example_item_sugar:
  "bulk_item example_env ''Sugar'' example_world =
     (Inr (''Sugar'', Some (None, example_record)),
      example_world\<lparr>calls := calls example_world + 2,
        cache := putCache (cacheKey (QStr ''woolworths'') (QStr ''Sugar'') 1 15) [example_record] 45000
                   (clock example_world + 120)
                   (putCache (cacheKey (QStr ''coles'') (QStr ''Sugar'') 1 15) [example_record] 45000
                      (clock example_world + 120) (cache example_world)),
        clock := clock example_world + 120\<rparr>)"
  by (simp add: bulk_item_def example_sugar example_attribute del: One_nat_def)

lemma parse_examples:
  "parseItems (QStr ''Flour,Sugar'') = Inr [''Flour'', ''Sugar'']"
  "parseItems (QStr ''Sugar,Flour'') = Inr [''Sugar'', ''Flour'']"
  "parseItems (QStr ''Flour'') = Inr [''Flour'']"
  "parseItems (QStr ''Sugar'') = Inr [''Sugar'']"
  "parseItems (QStr ''Sugar, Milk,'') = Inr [''Sugar'', ''Milk'']"
  by (simp_all add: parseItems_def trim_def isSpace_def)

lemma example_item_sugar1:
  "bulk_item example_env ''Sugar'' example_world =
     (Inr (''Sugar'', Some (None, example_record)), example_world1)"
  unfolding example_item_sugar
  by (simp add: example_world1_def example_world_def)

lemma example_loop_sugar:
  "bulk_loop example_env [''Sugar''] example_world =
     (Inr [(''Sugar'', Some (None, example_record))], example_world1)"
  by (simp add: example_item_sugar1)

lemma example_world1_cache:
  "cache example_world1 (cacheKey (QStr ''coles'') (QStr ''Flour'') 1 15) = None"
  "cache example_world1 (cacheKey (QStr ''woolworths'') (QStr ''Flour'') 1 15) = None"
  "cache example_world1 (cacheKey (QStr ''coles'') (QStr ''Milk'') 1 15) = None"
  "cache example_world1 (cacheKey (QStr ''woolworths'') (QStr ''Milk'') 1 15) = None"
  by (simp_all add: example_world1_def putCache_def cacheKey_def)

lemma example_flour1:
  "searchBoth example_env (QStr ''Flour'') example_world1 =
     (Inl (AxiosError ''Request failed with status code 500''),
      example_world1\<lparr>calls := calls example_world1 + 2, clock := clock example_world1 + 120\<rparr>)"
  by (rule searchBoth_fail[OF ensureKey_example example_world1_cache(1) example_world1_cache(2)
        example_axios(1) example_axios(1)])




text \<open>
  C4, as stated, fails: with the items \<open>Flour,Sugar\<close> and a network on which only the
  searches for \<open>Flour\<close> fail, the response is the status 500 with the message of that
  failure and no report, and two network calls have been made, none of them for
  \<open>Sugar\<close>, although \<open>Sugar\<close> alone is answered with a report.
\<close>

theorem bulk_isolation_counterexample:
  "fst (bulk_handler example_env (QStr ''Flour,Sugar'') example_world)
     = (500, ErrorBody ''Request failed with status code 500'')
   \<and> calls (snd (bulk_handler example_env (QStr ''Flour,Sugar'') example_world)) = 2
   \<and> fst (bulk_handler example_env (QStr ''Sugar'') example_world)
     = (200, BulkBody [(''Sugar'', Some (None, example_record))])"
proof -
  have a: "bulk_handler example_env (QStr ''Flour,Sugar'') example_world =
             ((500, ErrorBody ''Request failed with status code 500''),
              example_world\<lparr>calls := calls example_world + 2, clock := clock example_world + 120\<rparr>)"
    by (simp add: bulk_handler_def parse_examples bulk_item_def example_flour serverError_def)
  have b: "fst (bulk_handler example_env (QStr ''Sugar'') example_world)
     = (200, BulkBody [(''Sugar'', Some (None, example_record))])"
    by (simp add: bulk_handler_def parse_examples example_item_sugar)
  from a b show ?thesis by (simp add: example_world_def)
qed

text \<open>
  C4, amended. In the batch route a fetch failure for one item makes the whole request
  fail: when the items before it have been processed and its fetch throws, the response is
  the status 500 with the message of that error (\<open>Server error\<close> if it has none), the
  results of the earlier items are not sent, and the state is the one the failed fetch left,
  so no later item is fetched.
\<close>

theorem bulk_failure_aborts:
  assumes "parseItems items0 = Inr (pre @ x # post)"
      and "bulk_loop e pre w = (Inr out, w1)"
      and "searchBoth e (QStr x) w1 = (Inl err, w2)"
  shows "bulk_handler e items0 w =
           ((500, ErrorBody (if message err = [] then ''Server error'' else message err)), w2)"
proof -
  from assms(3) have "bulk_item e x w1 = (Inl err, w2)"
    by (simp add: bulk_item_def)
  hence "bulk_loop e (x # post) w1 = (Inl err, w2)" by simp
  with assms(2) have "bulk_loop e (pre @ x # post) w = (Inl err, w2)"
    by (simp add: bulk_loop_append)
  with assms(1) show ?thesis
    by (simp add: bulk_handler_def serverError_def)
qed

theorem bulk_failure_aborts_witness:
  "bulk_handler example_env (QStr ''Sugar,Flour'') example_world =
     ((500, ErrorBody ''Request failed with status code 500''),
      example_world1\<lparr>calls := calls example_world1 + 2, clock := clock example_world1 + 120\<rparr>)
   \<and> calls (example_world1\<lparr>calls := calls example_world1 + 2,
                              clock := clock example_world1 + 120\<rparr>) = 4"
proof -
  have p: "parseItems (QStr ''Sugar,Flour'') = Inr ([''Sugar''] @ ''Flour'' # [])"
    by (simp add: parse_examples)
  from bulk_failure_aborts [OF p example_loop_sugar example_flour1]
  have "bulk_handler example_env (QStr ''Sugar,Flour'') example_world =
     ((500, ErrorBody ''Request failed with status code 500''),
      example_world1\<lparr>calls := calls example_world1 + 2, clock := clock example_world1 + 120\<rparr>)"
    by simp
  moreover have "calls (example_world1\<lparr>calls := calls example_world1 + 2,
                              clock := clock example_world1 + 120\<rparr>) = 4"
    by (simp add: example_world1_def)
  ultimately show ?thesis by (rule conjI)
qed













end
